theory Spec2Isabelle
  imports Main "HOL-Library.Word" "HOL-Library.Signed_Division"
begin

section \<open>Batched Sobel gradient magnitude (cudasobel.cpp)\<close>

text \<open>
  A shallow embedding of \<^verbatim>\<open>src/cudasobel.cpp\<close>: the constant-memory kernel store
  (\<^verbatim>\<open>setSobelKernels\<close>), the device kernel \<^verbatim>\<open>applySobelFilters\<close> and the resource
  handling of the host driver \<^verbatim>\<open>sobelFilterCuda\<close>.

  Conventions of the embedding.
  \<^item> \<^verbatim>\<open>uchar\<close> is an 8-bit word, the C type \<^verbatim>\<open>int\<close> of the accumulators and of the
    kernel coefficients is a 32-bit word read in two's complement (\<open>sint\<close>), so the
    casts of the source wrap as they do on the device.
  \<^item> Thread and block coordinates, image sizes and flat indices are natural numbers; the
    source keeps them in 32-bit variables, which agree with the natural numbers as long as
    \<open>width * height * blockDim.z < 2 ^ 31\<close>.
  \<^item> Device buffers are raw pointers in the source; they are functions from an element
    offset to a byte. Shared memory is such a function too: its contents before the kernel
    writes it are whatever the previous kernel left there, a parameter of the model.
  \<^item> An index outside a constant-memory array is undefined behaviour in the source and
    the error \<open>OutOfBounds\<close> in the model.
\<close>

subsection \<open>Machine types\<close>

type_synonym uchar = "8 word"
type_synonym cint = "32 word"

text \<open>
  Every \<^verbatim>\<open>float\<close> of the kernel is the exact result of an integer conversion, a product or
  a sum of integers, rounded to single precision. A float is modelled by the integer it
  holds; \<open>f32\<close> rounds an exact integer result to the nearest value with a 24-bit
  significand, ties to even (binary32; the exponent range is not reached by 32-bit
  operands).
\<close>

type_synonym float32 = int

fun bit_len :: "nat \<Rightarrow> nat" where
  "bit_len n = (if n = 0 then 0 else Suc (bit_len (n div 2)))"

definition f32 :: "int \<Rightarrow> float32" where
  "f32 v =
     (if \<bar>v\<bar> \<le> 2 ^ 24 then v
      else
        (let e = bit_len (nat \<bar>v\<bar>) - 24;
             q = \<bar>v\<bar> div 2 ^ e;
             rm = \<bar>v\<bar> mod 2 ^ e;
             q' = (if 2 * rm > 2 ^ e \<or> (2 * rm = 2 ^ e \<and> odd q) then q + 1 else q)
         in sgn v * q' * 2 ^ e))"

definition uchar_to_float :: "uchar \<Rightarrow> float32" where
  "uchar_to_float p = f32 (uint p)"

definition int_to_float :: "cint \<Rightarrow> float32" where
  "int_to_float s = f32 (sint s)"

text \<open>
  Conversion of a float to \<^verbatim>\<open>int\<close> truncates towards zero; the floats here are integers
  already. Outside the range of \<^verbatim>\<open>int\<close> the source is undefined and the model wraps.
\<close>

definition float_to_int :: "float32 \<Rightarrow> cint" where
  "float_to_int v = word_of_int v"

definition fmul :: "float32 \<Rightarrow> float32 \<Rightarrow> float32" where
  "fmul a b = f32 (a * b)"

definition fadd :: "float32 \<Rightarrow> float32 \<Rightarrow> float32" where
  "fadd a b = f32 (a + b)"

text \<open>\<^verbatim>\<open>abs\<close> on \<^verbatim>\<open>int\<close>, and the cast \<^verbatim>\<open>(uchar)\<close> of an \<^verbatim>\<open>int\<close>, which keeps the low 8 bits.\<close>

definition c_abs :: "cint \<Rightarrow> cint" where
  "c_abs s = (if sint s < 0 then - s else s)"

definition int_to_uchar :: "cint \<Rightarrow> uchar" where
  "int_to_uchar s = ucast s"

subsection \<open>Directional kernel store\<close>

datatype error = OutOfBounds

definition sobel_width :: int where
  "sobel_width = 3"

record const_mem =
  c_sobel_x :: "cint list list"
  c_sobel_y :: "cint list list"

definition h_sobel_x :: "cint list list" where
  "h_sobel_x = [[-1, 0, 1], [-2, 0, 2], [-1, 0, 1]]"

definition h_sobel_y :: "cint list list" where
  "h_sobel_y = [[-1, -2, -1], [0, 0, 0], [1, 2, 1]]"

text \<open>\<^verbatim>\<open>setSobelKernels\<close> copies both host matrices to constant memory.\<close>

definition setSobelKernels :: const_mem where
  "setSobelKernels = \<lparr>c_sobel_x = h_sobel_x, c_sobel_y = h_sobel_y\<rparr>"

text \<open>A read \<^verbatim>\<open>c_sobel[a][b]\<close> of an array declared \<^verbatim>\<open>[sobel_width][sobel_width]\<close>.\<close>

definition c_read :: "cint list list \<Rightarrow> int \<Rightarrow> int \<Rightarrow> error + cint" where
  "c_read K a b =
     (if 0 \<le> a \<and> a < sobel_width \<and> 0 \<le> b \<and> b < sobel_width
      then Inr (K ! nat a ! nat b) else Inl OutOfBounds)"

subsection \<open>Thread geometry\<close>

record dim3 =
  dim_x :: nat
  dim_y :: nat
  dim_z :: nat

text \<open>Lines 38, 39, 45 and 46 of the source.\<close>

definition global_x :: "dim3 \<Rightarrow> dim3 \<Rightarrow> dim3 \<Rightarrow> nat" where
  "global_x bid bd tid = dim_x bid * dim_x bd + dim_x tid"

definition global_y :: "dim3 \<Rightarrow> dim3 \<Rightarrow> dim3 \<Rightarrow> nat" where
  "global_y bid bd tid = dim_y bid * dim_y bd + dim_y tid"

definition valid_thread :: "nat \<Rightarrow> nat \<Rightarrow> dim3 \<Rightarrow> dim3 \<Rightarrow> dim3 \<Rightarrow> bool" where
  "valid_thread width height bid bd tid \<longleftrightarrow>
     global_x bid bd tid < width \<and> global_y bid bd tid < height"

definition crtShareIndex :: "dim3 \<Rightarrow> dim3 \<Rightarrow> nat" where
  "crtShareIndex bd tid = dim_z tid * dim_x bd * dim_y bd + dim_y tid * dim_x bd + dim_x tid"

definition crtGlobalIndex :: "nat \<Rightarrow> nat \<Rightarrow> dim3 \<Rightarrow> dim3 \<Rightarrow> dim3 \<Rightarrow> nat" where
  "crtGlobalIndex width height bid bd tid =
     dim_z tid * width * height + global_y bid bd tid * width + global_x bid bd tid"

subsection \<open>The convolution loops of one thread\<close>

text \<open>
  Lines 56 to 58 and 62 to 64: a neighbour coordinate is clamped to the extent of the
  block.
\<close>

definition clamp_crt :: "int \<Rightarrow> nat \<Rightarrow> int" where
  "clamp_crt c bdim = (if c < 0 then 0 else if c \<ge> int bdim then int bdim - 1 else c)"

text \<open>The index of the tile read on line 66.\<close>

definition tile_index :: "dim3 \<Rightarrow> dim3 \<Rightarrow> int \<Rightarrow> int \<Rightarrow> nat" where
  "tile_index bd tid crtY crtX =
     nat (int (dim_z tid) * int (dim_x bd) * int (dim_y bd) + crtY * int (dim_x bd) + crtX)"

text \<open>
  One statement \<^verbatim>\<open>sum += inputPix * c\<close>: the coefficient and the accumulator are converted
  to float, multiplied and added in float, and the sum is converted back to \<^verbatim>\<open>int\<close>.
\<close>

definition accumulate :: "cint \<Rightarrow> float32 \<Rightarrow> cint \<Rightarrow> cint" where
  "accumulate s inputPix c = float_to_int (fadd (int_to_float s) (fmul inputPix (int_to_float c)))"

fun inner_loop ::
  "const_mem \<Rightarrow> (nat \<Rightarrow> uchar) \<Rightarrow> dim3 \<Rightarrow> dim3 \<Rightarrow> int \<Rightarrow> int \<Rightarrow> int \<Rightarrow> int list \<Rightarrow>
   cint \<times> cint \<Rightarrow> error + cint \<times> cint" where
  "inner_loop cm s_input2 bd tid r i crtY [] (sum_x, sum_y) = Inr (sum_x, sum_y)"
| "inner_loop cm s_input2 bd tid r i crtY (j # js) (sum_x, sum_y) =
     (let crtX = clamp_crt (int (dim_x tid) + j) (dim_x bd);
          inputPix = uchar_to_float (s_input2 (tile_index bd tid crtY crtX))
      in case c_read (c_sobel_x cm) (r + j) (r + i) of
           Inl e \<Rightarrow> Inl e
         | Inr cx \<Rightarrow>
            (case c_read (c_sobel_y cm) (r + j) (r + i) of
               Inl e \<Rightarrow> Inl e
             | Inr cy \<Rightarrow>
                inner_loop cm s_input2 bd tid r i crtY js
                  (accumulate sum_x inputPix cx, accumulate sum_y inputPix cy)))"

fun outer_loop ::
  "const_mem \<Rightarrow> (nat \<Rightarrow> uchar) \<Rightarrow> dim3 \<Rightarrow> dim3 \<Rightarrow> int \<Rightarrow> int list \<Rightarrow>
   cint \<times> cint \<Rightarrow> error + cint \<times> cint" where
  "outer_loop cm s_input2 bd tid r [] acc = Inr acc"
| "outer_loop cm s_input2 bd tid r (i # is) acc =
     (let crtY = clamp_crt (int (dim_y tid) + i) (dim_y bd)
      in case inner_loop cm s_input2 bd tid r i crtY [- r..r] acc of
           Inl e \<Rightarrow> Inl e
         | Inr acc' \<Rightarrow> outer_loop cm s_input2 bd tid r is acc')"

text \<open>Lines 50 to 70: the radius (C division truncates) and both sums of one thread.\<close>

definition radius :: "int \<Rightarrow> int" where
  "radius kernel_width = (kernel_width - 1) sdiv 2"

definition thread_sums ::
  "const_mem \<Rightarrow> (nat \<Rightarrow> uchar) \<Rightarrow> dim3 \<Rightarrow> dim3 \<Rightarrow> int \<Rightarrow> error + cint \<times> cint" where
  "thread_sums cm s_input2 bd tid kernel_width =
     (let r = radius kernel_width
      in outer_loop cm s_input2 bd tid r [- r..r] (0, 0))"

text \<open>Line 72: the value the thread stores.\<close>

definition magnitude :: "cint \<times> cint \<Rightarrow> uchar" where
  "magnitude acc = int_to_uchar (c_abs (fst acc) + c_abs (snd acc))"

definition thread_pixel ::
  "const_mem \<Rightarrow> (nat \<Rightarrow> uchar) \<Rightarrow> dim3 \<Rightarrow> dim3 \<Rightarrow> int \<Rightarrow> error + uchar" where
  "thread_pixel cm s_input2 bd tid kernel_width =
     (case thread_sums cm s_input2 bd tid kernel_width of
        Inl e \<Rightarrow> Inl e
      | Inr acc \<Rightarrow> Inr (magnitude acc))"

subsection \<open>One block: cooperative load, barrier, convolution\<close>

text \<open>The threads of a block (and the blocks of a grid), \<open>x\<close> running fastest.\<close>

definition dim3_range :: "dim3 \<Rightarrow> dim3 list" where
  "dim3_range d =
     concat (map (\<lambda>z. concat (map (\<lambda>y. map (\<lambda>x. \<lparr>dim_x = x, dim_y = y, dim_z = z\<rparr>)
       [0..<dim_x d]) [0..<dim_y d])) [0..<dim_z d])"

text \<open>Lines 42 to 47: a thread inside the image copies its own pixel into the tile.\<close>

definition load_thread ::
  "(nat \<Rightarrow> uchar) \<Rightarrow> nat \<Rightarrow> nat \<Rightarrow> dim3 \<Rightarrow> dim3 \<Rightarrow> dim3 \<Rightarrow> (nat \<Rightarrow> uchar) \<Rightarrow> (nat \<Rightarrow> uchar)" where
  "load_thread d_input width height bid bd tid s_input2 =
     (if valid_thread width height bid bd tid
      then s_input2(crtShareIndex bd tid := d_input (crtGlobalIndex width height bid bd tid))
      else s_input2)"

text \<open>
  The tile at the barrier of line 48: the stale contents of shared memory, overwritten by
  the loads of the threads that took the branch of line 42.
\<close>

definition load_phase ::
  "(nat \<Rightarrow> uchar) \<Rightarrow> nat \<Rightarrow> nat \<Rightarrow> dim3 \<Rightarrow> dim3 \<Rightarrow> (nat \<Rightarrow> uchar) \<Rightarrow> (nat \<Rightarrow> uchar)" where
  "load_phase d_input width height bid bd stale =
     fold (load_thread d_input width height bid bd) (dim3_range bd) stale"

text \<open>Lines 42 and 50 to 72: after the barrier, a thread inside the image stores its pixel.\<close>

definition store_thread ::
  "const_mem \<Rightarrow> (nat \<Rightarrow> uchar) \<Rightarrow> nat \<Rightarrow> nat \<Rightarrow> int \<Rightarrow> dim3 \<Rightarrow> dim3 \<Rightarrow> dim3 \<Rightarrow>
   (nat \<Rightarrow> uchar) \<Rightarrow> error + (nat \<Rightarrow> uchar)" where
  "store_thread cm s_input2 width height kernel_width bid bd tid d_output =
     (if valid_thread width height bid bd tid
      then (case thread_pixel cm s_input2 bd tid kernel_width of
              Inl e \<Rightarrow> Inl e
            | Inr v \<Rightarrow> Inr (d_output(crtGlobalIndex width height bid bd tid := v)))
      else Inr d_output)"

fun store_phase ::
  "const_mem \<Rightarrow> (nat \<Rightarrow> uchar) \<Rightarrow> nat \<Rightarrow> nat \<Rightarrow> int \<Rightarrow> dim3 \<Rightarrow> dim3 \<Rightarrow> dim3 list \<Rightarrow>
   (nat \<Rightarrow> uchar) \<Rightarrow> error + (nat \<Rightarrow> uchar)" where
  "store_phase cm s_input2 width height kernel_width bid bd [] d_output = Inr d_output"
| "store_phase cm s_input2 width height kernel_width bid bd (tid # tids) d_output =
     (case store_thread cm s_input2 width height kernel_width bid bd tid d_output of
        Inl e \<Rightarrow> Inl e
      | Inr d_output' \<Rightarrow> store_phase cm s_input2 width height kernel_width bid bd tids d_output')"

definition run_block ::
  "dim3 \<Rightarrow> (nat \<Rightarrow> uchar) \<Rightarrow> const_mem \<Rightarrow> (nat \<Rightarrow> uchar) \<Rightarrow> nat \<Rightarrow> nat \<Rightarrow> int \<Rightarrow> dim3 \<Rightarrow>
   (nat \<Rightarrow> uchar) \<Rightarrow> error + (nat \<Rightarrow> uchar)" where
  "run_block bd stale cm d_input width height kernel_width bid d_output =
     store_phase cm (load_phase d_input width height bid bd stale)
       width height kernel_width bid bd (dim3_range bd) d_output"

subsection \<open>The kernel launch\<close>

text \<open>
  \<^verbatim>\<open>applySobelFilters<<<gridDim, blockDim, ...>>>\<close>: every block of the grid runs with a
  shared memory of its own, whose stale contents \<open>stale bid\<close> the launch does not clear.
\<close>

fun run_blocks ::
  "dim3 \<Rightarrow> (dim3 \<Rightarrow> nat \<Rightarrow> uchar) \<Rightarrow> const_mem \<Rightarrow> (nat \<Rightarrow> uchar) \<Rightarrow> nat \<Rightarrow> nat \<Rightarrow> int \<Rightarrow>
   dim3 list \<Rightarrow> (nat \<Rightarrow> uchar) \<Rightarrow> error + (nat \<Rightarrow> uchar)" where
  "run_blocks bd stale cm d_input width height kernel_width [] d_output = Inr d_output"
| "run_blocks bd stale cm d_input width height kernel_width (bid # bids) d_output =
     (case run_block bd (stale bid) cm d_input width height kernel_width bid d_output of
        Inl e \<Rightarrow> Inl e
      | Inr d_output' \<Rightarrow> run_blocks bd stale cm d_input width height kernel_width bids d_output')"

definition applySobelFilters ::
  "dim3 \<Rightarrow> dim3 \<Rightarrow> (dim3 \<Rightarrow> nat \<Rightarrow> uchar) \<Rightarrow> const_mem \<Rightarrow> (nat \<Rightarrow> uchar) \<Rightarrow> nat \<Rightarrow> nat \<Rightarrow> int \<Rightarrow>
   (nat \<Rightarrow> uchar) \<Rightarrow> error + (nat \<Rightarrow> uchar)" where
  "applySobelFilters gd bd stale cm d_input width height kernel_width d_output =
     run_blocks bd stale cm d_input width height kernel_width (dim3_range gd) d_output"

text \<open>
  The launch geometry of \<^verbatim>\<open>sobelFilterCuda\<close> (lines 97 and 98), for an image of
  \<open>cols\<close> by \<open>rows\<close> pixels: blocks of 16 by 16 threads, one layer per image of the batch,
  and \<^verbatim>\<open>ceil((float)cols / 16)\<close> by \<^verbatim>\<open>ceil((float)rows / 16)\<close> blocks. The conversion to
  \<^verbatim>\<open>float\<close> rounds to single precision; the division by 16 and the ceiling are exact, so
  the extent is the rounded size plus 15, divided by 16 in integers.
\<close>

definition blockDimHist :: "nat \<Rightarrow> dim3" where
  "blockDimHist batch_sz = \<lparr>dim_x = 16, dim_y = 16, dim_z = batch_sz\<rparr>"

definition ceil_div_16 :: "nat \<Rightarrow> nat" where
  "ceil_div_16 n = nat ((f32 (int n) + 15) div 16)"

definition gridDimHist :: "nat \<Rightarrow> nat \<Rightarrow> dim3" where
  "gridDimHist cols rows = \<lparr>dim_x = ceil_div_16 cols, dim_y = ceil_div_16 rows, dim_z = 1\<rparr>"

text \<open>Line 129: the gradient stage as the host launches it, with \<open>sobel_width\<close>.\<close>

definition sobel_stage ::
  "(dim3 \<Rightarrow> nat \<Rightarrow> uchar) \<Rightarrow> (nat \<Rightarrow> uchar) \<Rightarrow> nat \<Rightarrow> nat \<Rightarrow> nat \<Rightarrow> (nat \<Rightarrow> uchar) \<Rightarrow>
   error + (nat \<Rightarrow> uchar)" where
  "sobel_stage stale d_inputGrayscale cols rows batch_sz d_output =
     applySobelFilters (gridDimHist cols rows) (blockDimHist batch_sz) stale setSobelKernels
       d_inputGrayscale cols rows sobel_width d_output"

subsection \<open>Memory traffic of one thread\<close>

text \<open>
  The accesses a thread makes, in program order: the tile indices read on line 66 by the
  two loops, and the whole body of the kernel. A thread outside the image skips the
  branch of line 42, which holds the load, the barrier, the loops and the store. The
  lists are those of a run in which every coefficient read is in range.
\<close>

definition tile_reads :: "dim3 \<Rightarrow> dim3 \<Rightarrow> int \<Rightarrow> nat list" where
  "tile_reads bd tid kernel_width =
     (let r = radius kernel_width
      in concat (map (\<lambda>i.
           let crtY = clamp_crt (int (dim_y tid) + i) (dim_y bd)
           in map (\<lambda>j.
                let crtX = clamp_crt (int (dim_x tid) + j) (dim_x bd)
                in tile_index bd tid crtY crtX) [- r..r]) [- r..r]))"

datatype event = LoadInput nat | StoreTile nat | Barrier | ReadTile nat | StoreOutput nat

definition thread_events :: "nat \<Rightarrow> nat \<Rightarrow> int \<Rightarrow> dim3 \<Rightarrow> dim3 \<Rightarrow> dim3 \<Rightarrow> event list" where
  "thread_events width height kernel_width bid bd tid =
     (if valid_thread width height bid bd tid
      then [LoadInput (crtGlobalIndex width height bid bd tid),
            StoreTile (crtShareIndex bd tid),
            Barrier]
           @ map ReadTile (tile_reads bd tid kernel_width)
           @ [StoreOutput (crtGlobalIndex width height bid bd tid)]
      else [])"

subsection \<open>Reference definitions\<close>

text \<open>
  The nearest coordinate inside a tile axis of extent \<open>n\<close>, and saturation of a magnitude
  to the range of an 8-bit sample, as the specification words them.
\<close>

definition nearest_in_tile :: "int \<Rightarrow> nat \<Rightarrow> int" where
  "nearest_in_tile c n = max 0 (min (int n - 1) c)"


text \<open>A directional kernel: a 3 by 3 matrix of coefficients in \<open>[- 2, 2]\<close>.\<close>

definition small_kernel :: "cint list list \<Rightarrow> bool" where
  "small_kernel K \<longleftrightarrow>
     length K = 3 \<and> list_all (\<lambda>row. length row = 3 \<and> list_all (\<lambda>c. \<bar>sint c\<bar> \<le> 2) row) K"

text \<open>
  The convolution of a 3 by 3 kernel \<open>K\<close> with a neighbourhood \<open>N\<close>, where \<open>N i j\<close> is
  the sample \<open>i\<close> rows below and \<open>j\<close> columns right of the centre and meets the
  coefficient in row \<open>1 + i\<close>, column \<open>1 + j\<close>, in unbounded integers.
\<close>

definition convolve3 :: "cint list list \<Rightarrow> (int \<Rightarrow> int \<Rightarrow> int) \<Rightarrow> int" where
  "convolve3 K N =
     (\<Sum>i\<leftarrow>[- 1, 0, 1]. \<Sum>j\<leftarrow>[- 1, 0, 1]. sint (K ! nat (1 + i) ! nat (1 + j)) * N i j)"

text \<open>
  The neighbourhood a thread reads from its tile: the sample at the clamped coordinates of
  lines 56 to 64, for row offset \<open>i\<close> and column offset \<open>j\<close>.
\<close>

definition tile_neighbour :: "(nat \<Rightarrow> uchar) \<Rightarrow> dim3 \<Rightarrow> dim3 \<Rightarrow> int \<Rightarrow> int \<Rightarrow> int" where
  "tile_neighbour s_input2 bd tid i j =
     uint (s_input2 (tile_index bd tid (clamp_crt (int (dim_y tid) + i) (dim_y bd))
                                       (clamp_crt (int (dim_x tid) + j) (dim_x bd))))"

text \<open>
  An image batch is a flat buffer, row-major within an image, the images one after the
  other: sample \<open>(b, row, col)\<close>.
\<close>

definition pixel_at :: "(nat \<Rightarrow> uchar) \<Rightarrow> nat \<Rightarrow> nat \<Rightarrow> nat \<Rightarrow> nat \<Rightarrow> nat \<Rightarrow> uchar" where
  "pixel_at buf width height b row col = buf (b * width * height + row * width + col)"

text \<open>
  The tile-local clamped neighbourhood of a pixel in the input: the tile position nearest to
  the offset position, and the input sample of image \<open>dim_z tid\<close> at the block's origin
  plus that tile position.
\<close>

definition neighbour_thread :: "dim3 \<Rightarrow> dim3 \<Rightarrow> int \<Rightarrow> int \<Rightarrow> dim3" where
  "neighbour_thread bd tid i j =
     \<lparr>dim_x = nat (nearest_in_tile (int (dim_x tid) + j) (dim_x bd)),
      dim_y = nat (nearest_in_tile (int (dim_y tid) + i) (dim_y bd)),
      dim_z = dim_z tid\<rparr>"

definition input_neighbour ::
  "(nat \<Rightarrow> uchar) \<Rightarrow> nat \<Rightarrow> nat \<Rightarrow> dim3 \<Rightarrow> dim3 \<Rightarrow> dim3 \<Rightarrow> int \<Rightarrow> int \<Rightarrow> int" where
  "input_neighbour d_input width height bid bd tid i j =
     uint (pixel_at d_input width height (dim_z tid)
             (dim_y bid * dim_y bd + dim_y (neighbour_thread bd tid i j))
             (dim_x bid * dim_x bd + dim_x (neighbour_thread bd tid i j)))"

text \<open>
  The neighbourhood is loaded when each of its 3 by 3 positions belongs to a thread inside
  the image.
\<close>

definition neighbourhood_loaded :: "nat \<Rightarrow> nat \<Rightarrow> dim3 \<Rightarrow> dim3 \<Rightarrow> dim3 \<Rightarrow> bool" where
  "neighbourhood_loaded width height bid bd tid \<longleftrightarrow>
     list_all (\<lambda>i. list_all (\<lambda>j.
         dim_x bid * dim_x bd + dim_x (neighbour_thread bd tid i j) < width \<and>
         dim_y bid * dim_y bd + dim_y (neighbour_thread bd tid i j) < height)
       [- 1, 0, 1]) [- 1, 0, 1]"

text \<open>The block and the thread that own pixel \<open>(x, y)\<close> of image \<open>b\<close>.\<close>

definition block_of :: "dim3 \<Rightarrow> nat \<Rightarrow> nat \<Rightarrow> dim3" where
  "block_of bd x y = \<lparr>dim_x = x div dim_x bd, dim_y = y div dim_y bd, dim_z = 0\<rparr>"

definition thread_of :: "dim3 \<Rightarrow> nat \<Rightarrow> nat \<Rightarrow> nat \<Rightarrow> dim3" where
  "thread_of bd x y b = \<lparr>dim_x = x mod dim_x bd, dim_y = y mod dim_y bd, dim_z = b\<rparr>"

text \<open>
  The loops with the coefficient read as \<^verbatim>\<open>c_sobel[r + i][r + j]\<close>, row offset first: the
  indexing the source does not use, for comparison.
\<close>

fun inner_loop_untransposed ::
  "const_mem \<Rightarrow> (nat \<Rightarrow> uchar) \<Rightarrow> dim3 \<Rightarrow> dim3 \<Rightarrow> int \<Rightarrow> int \<Rightarrow> int \<Rightarrow> int list \<Rightarrow>
   cint \<times> cint \<Rightarrow> error + cint \<times> cint" where
  "inner_loop_untransposed cm s_input2 bd tid r i crtY [] (sum_x, sum_y) = Inr (sum_x, sum_y)"
| "inner_loop_untransposed cm s_input2 bd tid r i crtY (j # js) (sum_x, sum_y) =
     (let crtX = clamp_crt (int (dim_x tid) + j) (dim_x bd);
          inputPix = uchar_to_float (s_input2 (tile_index bd tid crtY crtX))
      in case c_read (c_sobel_x cm) (r + i) (r + j) of
           Inl e \<Rightarrow> Inl e
         | Inr cx \<Rightarrow>
            (case c_read (c_sobel_y cm) (r + i) (r + j) of
               Inl e \<Rightarrow> Inl e
             | Inr cy \<Rightarrow>
                inner_loop_untransposed cm s_input2 bd tid r i crtY js
                  (accumulate sum_x inputPix cx, accumulate sum_y inputPix cy)))"

fun outer_loop_untransposed ::
  "const_mem \<Rightarrow> (nat \<Rightarrow> uchar) \<Rightarrow> dim3 \<Rightarrow> dim3 \<Rightarrow> int \<Rightarrow> int list \<Rightarrow>
   cint \<times> cint \<Rightarrow> error + cint \<times> cint" where
  "outer_loop_untransposed cm s_input2 bd tid r [] acc = Inr acc"
| "outer_loop_untransposed cm s_input2 bd tid r (i # is) acc =
     (let crtY = clamp_crt (int (dim_y tid) + i) (dim_y bd)
      in case inner_loop_untransposed cm s_input2 bd tid r i crtY [- r..r] acc of
           Inl e \<Rightarrow> Inl e
         | Inr acc' \<Rightarrow> outer_loop_untransposed cm s_input2 bd tid r is acc')"

definition thread_sums_untransposed ::
  "const_mem \<Rightarrow> (nat \<Rightarrow> uchar) \<Rightarrow> dim3 \<Rightarrow> dim3 \<Rightarrow> int \<Rightarrow> error + cint \<times> cint" where
  "thread_sums_untransposed cm s_input2 bd tid kernel_width =
     (let r = radius kernel_width
      in outer_loop_untransposed cm s_input2 bd tid r [- r..r] (0, 0))"

definition thread_pixel_untransposed ::
  "const_mem \<Rightarrow> (nat \<Rightarrow> uchar) \<Rightarrow> dim3 \<Rightarrow> dim3 \<Rightarrow> int \<Rightarrow> error + uchar" where
  "thread_pixel_untransposed cm s_input2 bd tid kernel_width =
     (case thread_sums_untransposed cm s_input2 bd tid kernel_width of
        Inl e \<Rightarrow> Inl e
      | Inr acc \<Rightarrow> Inr (magnitude acc))"

subsection \<open>Device buffers of the host driver\<close>

text \<open>
  \<^verbatim>\<open>sobelFilterCuda\<close> is a straight line of runtime calls, each wrapped in
  \<^verbatim>\<open>SAFE_CALL\<close> with a message. The model keeps what the calls do to the device
  buffers: which are acquired and not yet released, and which have been released, in
  order. The kernel launches and \<^verbatim>\<open>computeGaussianKernelCuda\<close> are not wrapped; the
  synchronisation after each launch is, and so are the two copies inside
  \<^verbatim>\<open>setSobelKernels\<close>.
\<close>

datatype buffer = D_input | D_inputBlurred | D_inputGrayscale | D_output

datatype cuda_call =
    CudaMalloc buffer
  | CudaMemcpyHostToDevice
  | SynchronizeGaussian
  | SynchronizeGrayscale
  | CopySobelX
  | CopySobelY
  | SynchronizeSobel
  | CudaMemcpyDeviceToHost
  | CudaFree buffer

record device =
  acquired :: "buffer list"
  released :: "buffer list"

definition perform :: "cuda_call \<Rightarrow> device \<Rightarrow> device" where
  "perform c dev =
     (case c of
        CudaMalloc b \<Rightarrow> dev\<lparr>acquired := acquired dev @ [b]\<rparr>
      | CudaFree b \<Rightarrow> dev\<lparr>acquired := remove1 b (acquired dev), released := released dev @ [b]\<rparr>
      | _ \<Rightarrow> dev)"

text \<open>
  Modelled from the spec: the macro \<^verbatim>\<open>SAFE_CALL\<close>, which the repository uses and does
  not define. Section 7 of the specification makes every error fatal to the current run
  and lets it surface to the caller: a failed call ends the run with its message, a
  successful one lets the run go on. Which calls fail is the parameter \<open>fails\<close>.
\<close>

definition SAFE_CALL :: "(cuda_call \<Rightarrow> bool) \<Rightarrow> cuda_call \<Rightarrow> string \<Rightarrow> device \<Rightarrow> string + device" where
  "SAFE_CALL fails c msg dev = (if fails c then Inl msg else Inr (perform c dev))"

text \<open>Lines 87 to 140, in order.\<close>

definition sobelFilterCuda_calls :: "(cuda_call \<times> string) list" where
  "sobelFilterCuda_calls =
     [(CudaMalloc D_input, ''CUDA Malloc Failed''),
      (CudaMalloc D_inputBlurred, ''CUDA Malloc Failed''),
      (CudaMalloc D_inputGrayscale, ''CUDA Malloc Failed''),
      (CudaMalloc D_output, ''CUDA Malloc Failed''),
      (CudaMemcpyHostToDevice, ''CUDA Memcpy Host To Device Failed''),
      (SynchronizeGaussian, ''Kernel Launch Failed''),
      (SynchronizeGrayscale, ''Kernel Launch Failed''),
      (CopySobelX, ''CUDA Kernel Memcpy Host To Device Failed''),
      (CopySobelY, ''CUDA Kernel Memcpy Host To Device Failed''),
      (SynchronizeSobel, ''Kernel Launch Failed''),
      (CudaMemcpyDeviceToHost, ''CUDA Memcpy Host To Device Failed''),
      (CudaFree D_input, ''CUDA Free Failed''),
      (CudaFree D_inputBlurred, ''CUDA Free Failed''),
      (CudaFree D_inputGrayscale, ''CUDA Free Failed''),
      (CudaFree D_output, ''CUDA Free Failed'')]"

text \<open>
  A run returns the message of the first failed call, if any, and the state of the device
  buffers at the moment the run ends.
\<close>

fun run_calls :: "(cuda_call \<Rightarrow> bool) \<Rightarrow> (cuda_call \<times> string) list \<Rightarrow> device \<Rightarrow> string option \<times> device" where
  "run_calls fails [] dev = (None, dev)"
| "run_calls fails ((c, msg) # cs) dev =
     (case SAFE_CALL fails c msg dev of
        Inl e \<Rightarrow> (Some e, dev)
      | Inr dev' \<Rightarrow> run_calls fails cs dev')"

definition sobelFilterCuda :: "(cuda_call \<Rightarrow> bool) \<Rightarrow> string option \<times> device" where
  "sobelFilterCuda fails = run_calls fails sobelFilterCuda_calls \<lparr>acquired = [], released = []\<rparr>"

subsection \<open>Concrete inputs\<close>

text \<open>
  Buffers on which the kernel is evaluated below: a buffer holding one value everywhere,
  shared memory left holding one value in every block, a 16 by 16 image whose upper eight
  rows are black and whose lower eight rows are white, and the 3 by 3 image of the
  known-vector scenario. \<open>read_back\<close> is one sample of the output of a launch,
  \<open>fails_only\<close> the run in which exactly one runtime call fails.
\<close>

definition filled :: "uchar \<Rightarrow> nat \<Rightarrow> uchar" where
  "filled v k = v"

definition stale_filled :: "uchar \<Rightarrow> dim3 \<Rightarrow> nat \<Rightarrow> uchar" where
  "stale_filled v bid k = v"


definition known_vector :: "nat \<Rightarrow> uchar" where
  "known_vector k = (if k = 4 then 100 else 10)"

definition read_back :: "error + (nat \<Rightarrow> uchar) \<Rightarrow> nat \<Rightarrow> error + uchar" where
  "read_back result k = (case result of Inl e \<Rightarrow> Inl e | Inr d_output \<Rightarrow> Inr (d_output k))"

definition fails_only :: "cuda_call \<Rightarrow> cuda_call \<Rightarrow> bool" where
  "fails_only c0 c \<longleftrightarrow> c = c0"

section \<open>Properties\<close>

subsection \<open>Arithmetic of one accumulation and of the final cast\<close>

lemma f32_exact: "\<bar>v\<bar> \<le> 2 ^ 24 \<Longrightarrow> f32 v = v"
  by (simp add: f32_def)

lemma uint_uchar_bounds: "0 \<le> uint (p::uchar) \<and> uint p \<le> 255"
  using uint_lt2p [of p] by simp

lemma pix_coef_bound:
  assumes "\<bar>c\<bar> \<le> (2::int)"
  shows "\<bar>uint (p::uchar) * c\<bar> \<le> 510"
proof -
  have "\<bar>uint p * c\<bar> = uint p * \<bar>c\<bar>" by (simp add: abs_mult)
  also have "\<dots> \<le> 255 * 2"
    using uint_uchar_bounds [of p] assms by (intro mult_mono) auto
  finally show ?thesis by simp
qed

lemma sint_word_of_int_32:
  assumes "- (2 ^ 31) \<le> v" "v < 2 ^ 31"
  shows "sint (word_of_int v :: 32 word) = v"
  using assms by (simp add: sint_sbintrunc' signed_take_bit_int_eq_self)

text \<open>
  While the accumulator is far from the limits of the 24-bit significand, one statement
  \<^verbatim>\<open>sum += inputPix * c\<close> adds the exact product.
\<close>

lemma accumulate_exact:
  assumes "\<bar>sint s\<bar> \<le> 16000000" "\<bar>sint c\<bar> \<le> 2"
  shows "sint (accumulate s (uchar_to_float p) c) = sint s + uint p * sint c"
proof -
  have b: "\<bar>uint p * sint c\<bar> \<le> 510" using assms(2) by (rule pix_coef_bound)
  have p: "uchar_to_float p = uint p"
    using uint_uchar_bounds [of p] by (simp add: uchar_to_float_def f32_exact)
  have c: "int_to_float c = sint c"
    using assms(2) by (simp add: int_to_float_def f32_exact)
  have s: "int_to_float s = sint s"
    using assms(1) by (simp add: int_to_float_def f32_exact)
  have m: "fmul (uint p) (sint c) = uint p * sint c"
    using b by (simp add: fmul_def f32_exact)
  have a: "fadd (sint s) (uint p * sint c) = sint s + uint p * sint c"
    using b assms(1) by (simp add: fadd_def f32_exact)
  have "sint (float_to_int (sint s + uint p * sint c)) = sint s + uint p * sint c"
    unfolding float_to_int_def using b assms(1) by (intro sint_word_of_int_32) auto
  then show ?thesis by (simp add: accumulate_def p c s m a)
qed

lemma c_abs_of_int: "c_abs s = word_of_int \<bar>sint s\<bar>"
  by (simp add: c_abs_def abs_if)

lemma ucast_of_int_32_8: "(ucast (word_of_int n :: 32 word) :: 8 word) = word_of_int n"
  apply (simp add: ucast_eq  uint_word_of_int)
  apply (rule word_eq_iff_unsigned[where ?'a = int, THEN iffD2])
  apply (simp add: unsigned_of_int take_bit_eq_mod mod_mod_cancel)
  done

lemma magnitude_mod: "magnitude (sx, sy) = word_of_int ((\<bar>sint sx\<bar> + \<bar>sint sy\<bar>) mod 256)"
proof -
  define n where "n = \<bar>sint sx\<bar> + \<bar>sint sy\<bar>"
  have e: "c_abs sx + c_abs sy = (word_of_int n :: cint)"
    by (simp add: c_abs_of_int n_def)
  have "magnitude (sx, sy) = ucast (word_of_int n :: cint)"
    by (simp only: magnitude_def fst_conv snd_conv int_to_uchar_def e)
  also have "\<dots> = (word_of_int n :: uchar)"
    by (rule ucast_of_int_32_8)
  also have "\<dots> = word_of_int (n mod 256)"
    by (rule word_eq_iff_unsigned[where ?'a = int, THEN iffD2])
       (simp add: unsigned_of_int take_bit_eq_mod)
  finally show ?thesis by (simp only: n_def)
qed

lemma uint_magnitude: "uint (magnitude (sx, sy)) = (\<bar>sint sx\<bar> + \<bar>sint sy\<bar>) mod 256"
  by (simp add: magnitude_mod unsigned_of_int take_bit_eq_mod)

subsection \<open>The stored value is truncated, not saturated\<close>

text \<open>
  Claim C10. When \<open>|sum_x| + |sum_y|\<close> exceeds 255 for a pixel, the thread stores
  \<open>(|sum_x| + |sum_y|) mod 256\<close> in the output, the low byte that the cast to \<^verbatim>\<open>uchar\<close>
  keeps, and not the saturated value 255.
\<close>

theorem stored_magnitude_truncates:
  assumes "valid_thread width height bid bd tid"
    and "thread_sums cm s_input2 bd tid kernel_width = Inr (sum_x, sum_y)"
    and "255 < \<bar>sint sum_x\<bar> + \<bar>sint sum_y\<bar>"
  shows "store_thread cm s_input2 width height kernel_width bid bd tid d_output =
         Inr (d_output(crtGlobalIndex width height bid bd tid :=
                word_of_int ((\<bar>sint sum_x\<bar> + \<bar>sint sum_y\<bar>) mod 256)))"
  using assms(1,2) by (simp add: store_thread_def thread_pixel_def magnitude_mod)

text \<open>
  A horizontal edge between rows 7 and 8 of a full 16 by 16 tile: at pixel \<open>(5, 7)\<close> the
  sums are 1020 and 0, and the thread stores 252, not 255.
\<close>

theorem stored_magnitude_truncates_witness:
  "valid_thread 16 16 \<lparr>dim_x = 0, dim_y = 0, dim_z = 0\<rparr> (blockDimHist 1)
     \<lparr>dim_x = 5, dim_y = 7, dim_z = 0\<rparr> \<and>
   thread_sums setSobelKernels (\<lambda>k. if k < 128 then 0 else 255) (blockDimHist 1)
     \<lparr>dim_x = 5, dim_y = 7, dim_z = 0\<rparr> sobel_width = Inr (1020, 0) \<and>
   255 < \<bar>sint (1020 :: cint)\<bar> + \<bar>sint (0 :: cint)\<bar> \<and>
   store_thread setSobelKernels (\<lambda>k. if k < 128 then 0 else 255) 16 16 sobel_width
     \<lparr>dim_x = 0, dim_y = 0, dim_z = 0\<rparr> (blockDimHist 1) \<lparr>dim_x = 5, dim_y = 7, dim_z = 0\<rparr>
     (\<lambda>k. 0) = Inr ((\<lambda>k. 0)(117 := 252))"
proof -
  have v: "valid_thread 16 16 \<lparr>dim_x = 0, dim_y = 0, dim_z = 0\<rparr> (blockDimHist 1)
     \<lparr>dim_x = 5, dim_y = 7, dim_z = 0\<rparr>"
    by (simp add: valid_thread_def global_x_def global_y_def blockDimHist_def)
  have s: "thread_sums setSobelKernels (\<lambda>k. if k < 128 then 0 else 255) (blockDimHist 1)
     \<lparr>dim_x = 5, dim_y = 7, dim_z = 0\<rparr> sobel_width = Inr (1020, 0)"
    by code_simp
  have g: "255 < \<bar>sint (1020 :: cint)\<bar> + \<bar>sint (0 :: cint)\<bar>"
    by simp
  have i: "crtGlobalIndex 16 16 \<lparr>dim_x = 0, dim_y = 0, dim_z = 0\<rparr> (blockDimHist 1)
     \<lparr>dim_x = 5, dim_y = 7, dim_z = 0\<rparr> = 117"
    by (simp add: crtGlobalIndex_def global_x_def global_y_def blockDimHist_def)
  have r: "store_thread setSobelKernels (\<lambda>k. if k < 128 then 0 else 255) 16 16 sobel_width
     \<lparr>dim_x = 0, dim_y = 0, dim_z = 0\<rparr> (blockDimHist 1) \<lparr>dim_x = 5, dim_y = 7, dim_z = 0\<rparr>
     (\<lambda>k. 0) = Inr ((\<lambda>k. 0)(117 := 252))"
    using stored_magnitude_truncates [OF v s g, of "\<lambda>k. 0"] unfolding i by simp
  show ?thesis
    using v s g r by (intro conjI)
qed

subsection \<open>Threads of a block and positions in the tile\<close>

lemma in_dim3_range:
  "t \<in> set (dim3_range d) \<longleftrightarrow> dim_x t < dim_x d \<and> dim_y t < dim_y d \<and> dim_z t < dim_z d"
proof
  assume "t \<in> set (dim3_range d)"
  then show "dim_x t < dim_x d \<and> dim_y t < dim_y d \<and> dim_z t < dim_z d"
    by (auto simp: dim3_range_def)
next
  assume a: "dim_x t < dim_x d \<and> dim_y t < dim_y d \<and> dim_z t < dim_z d"
  then show "t \<in> set (dim3_range d)"
    by (cases t) (simp add: dim3_range_def image_iff)
qed

lemma clamp_crt_nearest: "0 < n \<Longrightarrow> clamp_crt c n = nearest_in_tile c n"
  by (auto simp: clamp_crt_def nearest_in_tile_def)

lemma nearest_in_tile_bounds: "0 < n \<Longrightarrow> 0 \<le> nearest_in_tile c n \<and> nearest_in_tile c n < int n"
  by (auto simp: nearest_in_tile_def)

lemma nat_nearest_in_tile_less: "0 < n \<Longrightarrow> nat (nearest_in_tile c n) < n"
  by (auto simp: nearest_in_tile_def)

lemma tile_index_share:
  assumes "0 \<le> crtY" "0 \<le> crtX"
  shows "tile_index bd tid crtY crtX =
         crtShareIndex bd \<lparr>dim_x = nat crtX, dim_y = nat crtY, dim_z = dim_z tid\<rparr>"
  using assms
  apply (simp add: tile_index_def crtShareIndex_def)
  apply (simp add: nat_add_distrib nat_mult_distrib)
  done

lemma tile_index_neighbour:
  assumes "0 < dim_x bd" "0 < dim_y bd"
  shows "tile_index bd tid (clamp_crt (int (dim_y tid) + i) (dim_y bd))
           (clamp_crt (int (dim_x tid) + j) (dim_x bd)) =
         crtShareIndex bd (neighbour_thread bd tid i j)"
  using assms nearest_in_tile_bounds [of "dim_x bd" "int (dim_x tid) + j"]
    nearest_in_tile_bounds [of "dim_y bd" "int (dim_y tid) + i"]
  by (simp add: clamp_crt_nearest tile_index_share neighbour_thread_def)

lemma neighbour_thread_in_block:
  assumes "0 < dim_x bd" "0 < dim_y bd" "dim_z tid < dim_z bd"
  shows "neighbour_thread bd tid i j \<in> set (dim3_range bd)"
  using assms by (simp add: in_dim3_range neighbour_thread_def nat_nearest_in_tile_less)

subsection \<open>The barrier sits inside the branch of the valid threads\<close>

lemma invalid_thread_no_events:
  "\<not> valid_thread width height bid bd tid \<Longrightarrow> thread_events width height kernel_width bid bd tid = []"
  by (simp add: thread_events_def)

lemma valid_thread_events:
  "valid_thread width height bid bd tid \<Longrightarrow>
   thread_events width height kernel_width bid bd tid =
     [LoadInput (crtGlobalIndex width height bid bd tid), StoreTile (crtShareIndex bd tid), Barrier]
     @ map ReadTile (tile_reads bd tid kernel_width)
     @ [StoreOutput (crtGlobalIndex width height bid bd tid)]"
  by (simp add: thread_events_def)

text \<open>
  Claim C5, evaluated on a 3 by 3 image and the first block of 16 by 16 threads. Thread
  \<open>(3, 0, 0)\<close> lies outside the image: it makes no load and no store, and it never
  reaches the barrier either, since its event list is empty. Its sibling \<open>(2, 0, 0)\<close>
  passes the barrier and then reads tile element 3, the one thread \<open>(3, 0, 0)\<close> would
  have written.
\<close>

theorem thread_outside_image_skips_barrier:
  "thread_events 3 3 sobel_width \<lparr>dim_x = 0, dim_y = 0, dim_z = 0\<rparr> (blockDimHist 1)
     \<lparr>dim_x = 3, dim_y = 0, dim_z = 0\<rparr> = [] \<and>
   crtShareIndex (blockDimHist 1) \<lparr>dim_x = 3, dim_y = 0, dim_z = 0\<rparr> = 3 \<and>
   thread_events 3 3 sobel_width \<lparr>dim_x = 0, dim_y = 0, dim_z = 0\<rparr> (blockDimHist 1)
     \<lparr>dim_x = 2, dim_y = 0, dim_z = 0\<rparr> =
     [LoadInput 2, StoreTile 2, Barrier,
      ReadTile 1, ReadTile 2, ReadTile 3,
      ReadTile 1, ReadTile 2, ReadTile 3,
      ReadTile 17, ReadTile 18, ReadTile 19,
      StoreOutput 2]"
  by code_simp

subsection \<open>Device buffers on the exit paths of the host driver\<close>

lemma sobelFilterCuda_success:
  "sobelFilterCuda (\<lambda>c. False) =
   (None, \<lparr>acquired = [], released = [D_input, D_inputBlurred, D_inputGrayscale, D_output]\<rparr>)"
  by (simp add: sobelFilterCuda_def sobelFilterCuda_calls_def SAFE_CALL_def perform_def)

text \<open>
  Claim C7, evaluated at a failure of the third of the four acquisitions. The run ends
  with the message of the failed call; the two buffers acquired before it are still
  acquired and nothing has been released, because the four calls of \<^verbatim>\<open>cudaFree\<close> stand
  at the end of the straight line only.
\<close>

theorem third_acquisition_failure_leaks:
  "sobelFilterCuda (fails_only (CudaMalloc D_inputGrayscale)) =
   (Some ''CUDA Malloc Failed'', \<lparr>acquired = [D_input, D_inputBlurred], released = []\<rparr>)"
  by (simp add: sobelFilterCuda_def sobelFilterCuda_calls_def SAFE_CALL_def perform_def
      fails_only_def)

subsection \<open>The tile elements a thread depends on\<close>

lemma inner_loop_reads:
  assumes "\<forall>j\<in>set js. s (tile_index bd tid crtY (clamp_crt (int (dim_x tid) + j) (dim_x bd))) =
                       s' (tile_index bd tid crtY (clamp_crt (int (dim_x tid) + j) (dim_x bd)))"
  shows "inner_loop cm s bd tid r i crtY js acc = inner_loop cm s' bd tid r i crtY js acc"
  using assms
proof (induction js arbitrary: acc)
  case Nil
  show ?case by (cases acc) simp
next
  case (Cons j js)
  obtain sx sy where acc: "acc = (sx, sy)" by (cases acc)
  from Cons.prems have
    h: "s (tile_index bd tid crtY (clamp_crt (int (dim_x tid) + j) (dim_x bd))) =
        s' (tile_index bd tid crtY (clamp_crt (int (dim_x tid) + j) (dim_x bd)))"
    and t: "\<forall>j\<in>set js. s (tile_index bd tid crtY (clamp_crt (int (dim_x tid) + j) (dim_x bd))) =
                       s' (tile_index bd tid crtY (clamp_crt (int (dim_x tid) + j) (dim_x bd)))"
    by simp_all
  show ?case
    unfolding acc by (simp add: h Cons.IH [OF t] Let_def split: sum.splits)
qed

lemma outer_loop_reads:
  assumes "\<forall>i\<in>set is. \<forall>j\<in>set [- r..r].
     s (tile_index bd tid (clamp_crt (int (dim_y tid) + i) (dim_y bd))
          (clamp_crt (int (dim_x tid) + j) (dim_x bd))) =
     s' (tile_index bd tid (clamp_crt (int (dim_y tid) + i) (dim_y bd))
          (clamp_crt (int (dim_x tid) + j) (dim_x bd)))"
  shows "outer_loop cm s bd tid r is acc = outer_loop cm s' bd tid r is acc"
  using assms
proof (induction "is" arbitrary: acc)
  case Nil
  show ?case by simp
next
  case (Cons i rest)
  have "inner_loop cm s bd tid r i (clamp_crt (int (dim_y tid) + i) (dim_y bd)) [- r..r] acc =
        inner_loop cm s' bd tid r i (clamp_crt (int (dim_y tid) + i) (dim_y bd)) [- r..r] acc"
    using Cons.prems by (intro inner_loop_reads) simp
  moreover have "outer_loop cm s bd tid r rest acc' = outer_loop cm s' bd tid r rest acc'" for acc'
    using Cons.prems by (intro Cons.IH) simp
  ultimately show ?case by (simp add: Let_def split: sum.splits)
qed

text \<open>The sums of a thread depend on the tile through the elements of \<open>tile_reads\<close> only.\<close>

lemma thread_sums_reads:
  assumes "\<forall>k\<in>set (tile_reads bd tid kernel_width). s k = s' k"
  shows "thread_sums cm s bd tid kernel_width = thread_sums cm s' bd tid kernel_width"
  unfolding thread_sums_def Let_def
  using assms by (intro outer_loop_reads) (auto simp: tile_reads_def Let_def)

subsection \<open>Both sums of a thread, exactly\<close>

text \<open>
  With the kernels of \<^verbatim>\<open>setSobelKernels\<close> and radius 1, every coefficient read is in
  range and every accumulation is exact. The invariant of both loops: the accumulators
  hold the exact partial sums, bounded by 510 per term added.
\<close>

lemma upto_m1_1: "[- 1..1::int] = [- 1, 0, 1]"
  by (simp add: upto.simps)

lemma c_read_in_range:
  "- 1 \<le> i \<Longrightarrow> i \<le> 1 \<Longrightarrow> - 1 \<le> j \<Longrightarrow> j \<le> 1 \<Longrightarrow>
   c_read K (1 + j) (1 + i) = Inr (K ! nat (1 + j) ! nat (1 + i))"
  by (simp add: c_read_def sobel_width_def)

lemma offset_cases: "- 1 \<le> i \<Longrightarrow> i \<le> 1 \<Longrightarrow> i = - 1 \<or> i = 0 \<or> i = (1::int)"
  by arith

lemma h_sobel_x_small:
  assumes "- 1 \<le> i" "i \<le> 1" "- 1 \<le> j" "j \<le> 1"
  shows "\<bar>sint (h_sobel_x ! nat (1 + j) ! nat (1 + i))\<bar> \<le> 2"
  using offset_cases [OF assms(1,2)] offset_cases [OF assms(3,4)]
  by (auto simp: h_sobel_x_def)

lemma h_sobel_y_small:
  assumes "- 1 \<le> i" "i \<le> 1" "- 1 \<le> j" "j \<le> 1"
  shows "\<bar>sint (h_sobel_y ! nat (1 + j) ! nat (1 + i))\<bar> \<le> 2"
  using offset_cases [OF assms(1,2)] offset_cases [OF assms(3,4)]
  by (auto simp: h_sobel_y_def)

lemma inner_loop_exact:
  assumes "\<forall>j\<in>set js. - 1 \<le> j \<and> j \<le> 1" "- 1 \<le> i" "i \<le> 1"
    and "\<bar>sint sx\<bar> \<le> M" "\<bar>sint sy\<bar> \<le> M" "M + 510 * int (length js) \<le> 16000000"
  shows "\<exists>sx' sy'. inner_loop setSobelKernels s bd tid 1 i crtY js (sx, sy) = Inr (sx', sy') \<and>
     sint sx' = sint sx + (\<Sum>j\<leftarrow>js. uint (s (tile_index bd tid crtY (clamp_crt (int (dim_x tid) + j) (dim_x bd))))
                                  * sint (h_sobel_x ! nat (1 + j) ! nat (1 + i))) \<and>
     sint sy' = sint sy + (\<Sum>j\<leftarrow>js. uint (s (tile_index bd tid crtY (clamp_crt (int (dim_x tid) + j) (dim_x bd))))
                                  * sint (h_sobel_y ! nat (1 + j) ! nat (1 + i))) \<and>
     \<bar>sint sx'\<bar> \<le> M + 510 * int (length js) \<and> \<bar>sint sy'\<bar> \<le> M + 510 * int (length js)"
  using assms
proof (induction js arbitrary: sx sy M)
  case Nil
  then show ?case by simp
next
  case (Cons j js)
  define p where "p = s (tile_index bd tid crtY (clamp_crt (int (dim_x tid) + j) (dim_x bd)))"
  define cx where "cx = h_sobel_x ! nat (1 + j) ! nat (1 + i)"
  define cy where "cy = h_sobel_y ! nat (1 + j) ! nat (1 + i)"
  from Cons.prems have j: "- 1 \<le> j" "j \<le> 1" by auto
  have cxs: "\<bar>sint cx\<bar> \<le> 2" unfolding cx_def using Cons.prems(2,3) j by (rule h_sobel_x_small)
  have cys: "\<bar>sint cy\<bar> \<le> 2" unfolding cy_def using Cons.prems(2,3) j by (rule h_sobel_y_small)
  from Cons.prems have M: "M \<le> 16000000" by simp
  have ax: "sint (accumulate sx (uchar_to_float p) cx) = sint sx + uint p * sint cx"
    using Cons.prems(4) M cxs by (intro accumulate_exact) auto
  have ay: "sint (accumulate sy (uchar_to_float p) cy) = sint sy + uint p * sint cy"
    using Cons.prems(5) M cys by (intro accumulate_exact) auto
  have bx: "\<bar>sint (accumulate sx (uchar_to_float p) cx)\<bar> \<le> M + 510"
    using pix_coef_bound [OF cxs, of p] Cons.prems(4) unfolding ax by linarith
  have bY: "\<bar>sint (accumulate sy (uchar_to_float p) cy)\<bar> \<le> M + 510"
    using pix_coef_bound [OF cys, of p] Cons.prems(5) unfolding ay by linarith
  have M': "(M + 510) + 510 * int (length js) \<le> 16000000"
    using Cons.prems(6) by simp
  have js: "\<forall>j\<in>set js. - 1 \<le> j \<and> j \<le> 1" using Cons.prems(1) by simp
  from Cons.IH [OF js Cons.prems(2,3) bx bY M']
  obtain sx' sy' where r:
    "inner_loop setSobelKernels s bd tid 1 i crtY js
       (accumulate sx (uchar_to_float p) cx, accumulate sy (uchar_to_float p) cy) = Inr (sx', sy')"
    "sint sx' = sint (accumulate sx (uchar_to_float p) cx) +
       (\<Sum>j\<leftarrow>js. uint (s (tile_index bd tid crtY (clamp_crt (int (dim_x tid) + j) (dim_x bd))))
                                  * sint (h_sobel_x ! nat (1 + j) ! nat (1 + i)))"
    "sint sy' = sint (accumulate sy (uchar_to_float p) cy) +
       (\<Sum>j\<leftarrow>js. uint (s (tile_index bd tid crtY (clamp_crt (int (dim_x tid) + j) (dim_x bd))))
                                  * sint (h_sobel_y ! nat (1 + j) ! nat (1 + i)))"
    "\<bar>sint sx'\<bar> \<le> M + 510 + 510 * int (length js)"
    "\<bar>sint sy'\<bar> \<le> M + 510 + 510 * int (length js)"
    by blast
  have step: "inner_loop setSobelKernels s bd tid 1 i crtY (j # js) (sx, sy) = Inr (sx', sy')"
    using r(1) Cons.prems(2,3) j
    by (simp add: c_read_in_range setSobelKernels_def p_def cx_def cy_def)
  show ?case
    using step r(2-5) ax ay unfolding p_def cx_def cy_def
    by (simp del: inner_loop.simps)
qed


lemma outer_loop_exact:
  assumes "\<forall>i\<in>set is. - 1 \<le> i \<and> i \<le> 1"
    and "\<bar>sint sx\<bar> \<le> M" "\<bar>sint sy\<bar> \<le> M" "M + 1530 * int (length is) \<le> 16000000"
  shows "\<exists>sx' sy'. outer_loop setSobelKernels s bd tid 1 is (sx, sy) = Inr (sx', sy') \<and>
     sint sx' = sint sx + (\<Sum>i\<leftarrow>is. \<Sum>j\<leftarrow>[- 1, 0, 1].
        tile_neighbour s bd tid i j * sint (h_sobel_x ! nat (1 + j) ! nat (1 + i))) \<and>
     sint sy' = sint sy + (\<Sum>i\<leftarrow>is. \<Sum>j\<leftarrow>[- 1, 0, 1].
        tile_neighbour s bd tid i j * sint (h_sobel_y ! nat (1 + j) ! nat (1 + i))) \<and>
     \<bar>sint sx'\<bar> \<le> M + 1530 * int (length is) \<and> \<bar>sint sy'\<bar> \<le> M + 1530 * int (length is)"
  using assms
proof (induction "is" arbitrary: sx sy M)
  case Nil
  then show ?case by simp
next
  case (Cons i "is")
  from Cons.prems have i: "- 1 \<le> i" "i \<le> 1" by auto
  have js: "\<forall>j\<in>set [- 1, 0, 1::int]. - 1 \<le> j \<and> j \<le> 1" by simp
  have M3: "M + 510 * int (length [- 1, 0, 1::int]) \<le> 16000000"
    using Cons.prems(4) by simp
  from inner_loop_exact [OF js i Cons.prems(2,3) M3,
      of s bd tid "clamp_crt (int (dim_y tid) + i) (dim_y bd)"]
  obtain ax ay where a:
    "inner_loop setSobelKernels s bd tid 1 i (clamp_crt (int (dim_y tid) + i) (dim_y bd))
       [- 1, 0, 1] (sx, sy) = Inr (ax, ay)"
    "sint ax = sint sx + (\<Sum>j\<leftarrow>[- 1, 0, 1].
        tile_neighbour s bd tid i j * sint (h_sobel_x ! nat (1 + j) ! nat (1 + i)))"
    "sint ay = sint sy + (\<Sum>j\<leftarrow>[- 1, 0, 1].
        tile_neighbour s bd tid i j * sint (h_sobel_y ! nat (1 + j) ! nat (1 + i)))"
    "\<bar>sint ax\<bar> \<le> M + 1530" "\<bar>sint ay\<bar> \<le> M + 1530"
    unfolding tile_neighbour_def by auto
  have rest: "\<forall>i\<in>set is. - 1 \<le> i \<and> i \<le> 1" using Cons.prems(1) by simp
  have M': "(M + 1530) + 1530 * int (length is) \<le> 16000000"
    using Cons.prems(4) by simp
  from Cons.IH [OF rest a(4,5) M']
  obtain sx' sy' where r:
    "outer_loop setSobelKernels s bd tid 1 is (ax, ay) = Inr (sx', sy')"
    "sint sx' = sint ax + (\<Sum>i\<leftarrow>is. \<Sum>j\<leftarrow>[- 1, 0, 1].
        tile_neighbour s bd tid i j * sint (h_sobel_x ! nat (1 + j) ! nat (1 + i)))"
    "sint sy' = sint ay + (\<Sum>i\<leftarrow>is. \<Sum>j\<leftarrow>[- 1, 0, 1].
        tile_neighbour s bd tid i j * sint (h_sobel_y ! nat (1 + j) ! nat (1 + i)))"
    "\<bar>sint sx'\<bar> \<le> M + 1530 + 1530 * int (length is)"
    "\<bar>sint sy'\<bar> \<le> M + 1530 + 1530 * int (length is)"
    by blast
  have step: "outer_loop setSobelKernels s bd tid 1 (i # is) (sx, sy) = Inr (sx', sy')"
    using a(1) r(1) by (simp add: upto_m1_1 del: inner_loop.simps)
  show ?case
    using step r(2-5) a(2,3) by (simp del: outer_loop.simps)
qed

lemma radius_3: "radius 3 = 1"
  by (simp add: radius_def signed_divide_int_def)

lemma transposed_sum_x:
  "(\<Sum>i\<leftarrow>[- 1, 0, 1]. \<Sum>j\<leftarrow>[- 1, 0, 1]. N i j * sint (h_sobel_x ! nat (1 + j) ! nat (1 + i))) =
   convolve3 h_sobel_y N"
  by (simp add: convolve3_def h_sobel_x_def h_sobel_y_def)

lemma transposed_sum_y:
  "(\<Sum>i\<leftarrow>[- 1, 0, 1]. \<Sum>j\<leftarrow>[- 1, 0, 1]. N i j * sint (h_sobel_y ! nat (1 + j) ! nat (1 + i))) =
   convolve3 h_sobel_x N"
  by (simp add: convolve3_def h_sobel_x_def h_sobel_y_def)

lemma thread_sums_exact:
  "\<exists>sx sy. thread_sums setSobelKernels s bd tid 3 = Inr (sx, sy) \<and>
     sint sx = convolve3 h_sobel_y (tile_neighbour s bd tid) \<and>
     sint sy = convolve3 h_sobel_x (tile_neighbour s bd tid) \<and>
     \<bar>sint sx\<bar> \<le> 4590 \<and> \<bar>sint sy\<bar> \<le> 4590"
proof -
  have rows: "\<forall>i\<in>set [- 1, 0, 1::int]. - 1 \<le> i \<and> i \<le> 1" by simp
  have z: "\<bar>sint (0::cint)\<bar> \<le> 0" by simp
  have M: "0 + 1530 * int (length [- 1, 0, 1::int]) \<le> 16000000" by simp
  from outer_loop_exact [OF rows z z M, of s bd tid]
  obtain sx sy where r:
    "outer_loop setSobelKernels s bd tid 1 [- 1, 0, 1] (0, 0) = Inr (sx, sy)"
    "sint sx = (\<Sum>i\<leftarrow>[- 1, 0, 1]. \<Sum>j\<leftarrow>[- 1, 0, 1].
        tile_neighbour s bd tid i j * sint (h_sobel_x ! nat (1 + j) ! nat (1 + i)))"
    "sint sy = (\<Sum>i\<leftarrow>[- 1, 0, 1]. \<Sum>j\<leftarrow>[- 1, 0, 1].
        tile_neighbour s bd tid i j * sint (h_sobel_y ! nat (1 + j) ! nat (1 + i)))"
    "\<bar>sint sx\<bar> \<le> 4590" "\<bar>sint sy\<bar> \<le> 4590"
    by auto
  have t: "thread_sums setSobelKernels s bd tid 3 = Inr (sx, sy)"
    using r(1) by (simp add: thread_sums_def radius_3 upto_m1_1 del: outer_loop.simps)
  show ?thesis
    using t r(2-5) unfolding transposed_sum_x transposed_sum_y by blast
qed

subsection \<open>Border clamping is local to the tile\<close>

text \<open>
  The loops with any pair of small kernels and radius 1: both sums are the exact linear
  combinations of the nine samples that the tile holds at the positions of the siblings
  nearest to the worker's position plus the offset, and they depend on no other element
  of the tile.
\<close>

lemma small_kernel_nth:
  assumes "small_kernel K" "- 1 \<le> i" "i \<le> 1" "- 1 \<le> j" "j \<le> 1"
  shows "\<bar>sint (K ! nat (1 + j) ! nat (1 + i))\<bar> \<le> 2"
proof -
  have a: "nat (1 + j) < 3" "nat (1 + i) < 3" using assms(2-5) by auto
  from assms(1) have l: "length K = 3"
    and r: "\<forall>n<length K. length (K ! n) = 3 \<and> list_all (\<lambda>c. \<bar>sint c\<bar> \<le> 2) (K ! n)"
    by (simp_all add: small_kernel_def list_all_length)
  from r l a(1) have "length (K ! nat (1 + j)) = 3"
    "list_all (\<lambda>c. \<bar>sint c\<bar> \<le> 2) (K ! nat (1 + j))" by auto
  then show ?thesis using a(2) by (simp add: list_all_length)
qed

lemma inner_loop_linear:
  assumes "small_kernel (c_sobel_x cm)" "small_kernel (c_sobel_y cm)"
    and "\<forall>j\<in>set js. - 1 \<le> j \<and> j \<le> 1" "- 1 \<le> i" "i \<le> 1"
    and "\<bar>sint sx\<bar> \<le> M" "\<bar>sint sy\<bar> \<le> M" "M + 510 * int (length js) \<le> 16000000"
  shows "\<exists>sx' sy'. inner_loop cm s bd tid 1 i crtY js (sx, sy) = Inr (sx', sy') \<and>
     sint sx' = sint sx + (\<Sum>j\<leftarrow>js. uint (s (tile_index bd tid crtY (clamp_crt (int (dim_x tid) + j) (dim_x bd))))
                                  * sint (c_sobel_x cm ! nat (1 + j) ! nat (1 + i))) \<and>
     sint sy' = sint sy + (\<Sum>j\<leftarrow>js. uint (s (tile_index bd tid crtY (clamp_crt (int (dim_x tid) + j) (dim_x bd))))
                                  * sint (c_sobel_y cm ! nat (1 + j) ! nat (1 + i))) \<and>
     \<bar>sint sx'\<bar> \<le> M + 510 * int (length js) \<and> \<bar>sint sy'\<bar> \<le> M + 510 * int (length js)"
  using assms(3-)
proof (induction js arbitrary: sx sy M)
  case Nil
  then show ?case by simp
next
  case (Cons j js)
  define p where "p = s (tile_index bd tid crtY (clamp_crt (int (dim_x tid) + j) (dim_x bd)))"
  define cx where "cx = c_sobel_x cm ! nat (1 + j) ! nat (1 + i)"
  define cy where "cy = c_sobel_y cm ! nat (1 + j) ! nat (1 + i)"
  from Cons.prems have j: "- 1 \<le> j" "j \<le> 1" by auto
  have cxs: "\<bar>sint cx\<bar> \<le> 2"
    unfolding cx_def using assms(1) Cons.prems(2,3) j by (rule small_kernel_nth)
  have cys: "\<bar>sint cy\<bar> \<le> 2"
    unfolding cy_def using assms(2) Cons.prems(2,3) j by (rule small_kernel_nth)
  from Cons.prems have M: "M \<le> 16000000" by simp
  have ax: "sint (accumulate sx (uchar_to_float p) cx) = sint sx + uint p * sint cx"
    using Cons.prems(4) M cxs by (intro accumulate_exact) auto
  have ay: "sint (accumulate sy (uchar_to_float p) cy) = sint sy + uint p * sint cy"
    using Cons.prems(5) M cys by (intro accumulate_exact) auto
  have bx: "\<bar>sint (accumulate sx (uchar_to_float p) cx)\<bar> \<le> M + 510"
    using pix_coef_bound [OF cxs, of p] Cons.prems(4) unfolding ax by linarith
  have bY: "\<bar>sint (accumulate sy (uchar_to_float p) cy)\<bar> \<le> M + 510"
    using pix_coef_bound [OF cys, of p] Cons.prems(5) unfolding ay by linarith
  have M': "(M + 510) + 510 * int (length js) \<le> 16000000"
    using Cons.prems(6) by simp
  have js: "\<forall>j\<in>set js. - 1 \<le> j \<and> j \<le> 1" using Cons.prems(1) by simp
  from Cons.IH [OF js Cons.prems(2,3) bx bY M']
  obtain sx' sy' where r:
    "inner_loop cm s bd tid 1 i crtY js
       (accumulate sx (uchar_to_float p) cx, accumulate sy (uchar_to_float p) cy) = Inr (sx', sy')"
    "sint sx' = sint (accumulate sx (uchar_to_float p) cx) +
       (\<Sum>j\<leftarrow>js. uint (s (tile_index bd tid crtY (clamp_crt (int (dim_x tid) + j) (dim_x bd))))
                                  * sint (c_sobel_x cm ! nat (1 + j) ! nat (1 + i)))"
    "sint sy' = sint (accumulate sy (uchar_to_float p) cy) +
       (\<Sum>j\<leftarrow>js. uint (s (tile_index bd tid crtY (clamp_crt (int (dim_x tid) + j) (dim_x bd))))
                                  * sint (c_sobel_y cm ! nat (1 + j) ! nat (1 + i)))"
    "\<bar>sint sx'\<bar> \<le> M + 510 + 510 * int (length js)"
    "\<bar>sint sy'\<bar> \<le> M + 510 + 510 * int (length js)"
    by blast
  have cxr: "c_read (c_sobel_x cm) (1 + j) (1 + i) = Inr cx"
    unfolding cx_def using Cons.prems(2,3) j by (rule c_read_in_range)
  have cyr: "c_read (c_sobel_y cm) (1 + j) (1 + i) = Inr cy"
    unfolding cy_def using Cons.prems(2,3) j by (rule c_read_in_range)
  have step: "inner_loop cm s bd tid 1 i crtY (j # js) (sx, sy) = Inr (sx', sy')"
    by (simp only: inner_loop.simps Let_def cxr cyr sum.case p_def [symmetric] r(1))
  have vx: "sint sx' = sint sx + (\<Sum>j\<leftarrow>j # js.
      uint (s (tile_index bd tid crtY (clamp_crt (int (dim_x tid) + j) (dim_x bd))))
        * sint (c_sobel_x cm ! nat (1 + j) ! nat (1 + i)))"
    unfolding r(2) ax unfolding p_def cx_def by simp
  have vy: "sint sy' = sint sy + (\<Sum>j\<leftarrow>j # js.
      uint (s (tile_index bd tid crtY (clamp_crt (int (dim_x tid) + j) (dim_x bd))))
        * sint (c_sobel_y cm ! nat (1 + j) ! nat (1 + i)))"
    unfolding r(3) ay unfolding p_def cy_def by simp
  have wx: "\<bar>sint sx'\<bar> \<le> M + 510 * int (length (j # js))"
    using r(4) by simp
  have wy: "\<bar>sint sy'\<bar> \<le> M + 510 * int (length (j # js))"
    using r(5) by simp
  show ?case
    using step vx vy wx wy by blast
qed

lemma outer_loop_linear:
  assumes "small_kernel (c_sobel_x cm)" "small_kernel (c_sobel_y cm)"
    and "\<forall>i\<in>set is. - 1 \<le> i \<and> i \<le> 1"
    and "\<bar>sint sx\<bar> \<le> M" "\<bar>sint sy\<bar> \<le> M" "M + 1530 * int (length is) \<le> 16000000"
  shows "\<exists>sx' sy'. outer_loop cm s bd tid 1 is (sx, sy) = Inr (sx', sy') \<and>
     sint sx' = sint sx + (\<Sum>i\<leftarrow>is. \<Sum>j\<leftarrow>[- 1, 0, 1].
        tile_neighbour s bd tid i j * sint (c_sobel_x cm ! nat (1 + j) ! nat (1 + i))) \<and>
     sint sy' = sint sy + (\<Sum>i\<leftarrow>is. \<Sum>j\<leftarrow>[- 1, 0, 1].
        tile_neighbour s bd tid i j * sint (c_sobel_y cm ! nat (1 + j) ! nat (1 + i))) \<and>
     \<bar>sint sx'\<bar> \<le> M + 1530 * int (length is) \<and> \<bar>sint sy'\<bar> \<le> M + 1530 * int (length is)"
  using assms(3-)
proof (induction "is" arbitrary: sx sy M)
  case Nil
  then show ?case by simp
next
  case (Cons i rest)
  from Cons.prems have i: "- 1 \<le> i" "i \<le> 1" by auto
  have js: "\<forall>j\<in>set [- 1, 0, 1::int]. - 1 \<le> j \<and> j \<le> 1" by simp
  have M3: "M + 510 * int (length [- 1, 0, 1::int]) \<le> 16000000"
    using Cons.prems(4) by simp
  from inner_loop_linear [OF assms(1,2) js i Cons.prems(2,3) M3,
      of s bd tid "clamp_crt (int (dim_y tid) + i) (dim_y bd)"]
  obtain ax ay where a:
    "inner_loop cm s bd tid 1 i (clamp_crt (int (dim_y tid) + i) (dim_y bd))
       [- 1, 0, 1] (sx, sy) = Inr (ax, ay)"
    "sint ax = sint sx + (\<Sum>j\<leftarrow>[- 1, 0, 1].
        uint (s (tile_index bd tid (clamp_crt (int (dim_y tid) + i) (dim_y bd))
          (clamp_crt (int (dim_x tid) + j) (dim_x bd)))) *
        sint (c_sobel_x cm ! nat (1 + j) ! nat (1 + i)))"
    "sint ay = sint sy + (\<Sum>j\<leftarrow>[- 1, 0, 1].
        uint (s (tile_index bd tid (clamp_crt (int (dim_y tid) + i) (dim_y bd))
          (clamp_crt (int (dim_x tid) + j) (dim_x bd)))) *
        sint (c_sobel_y cm ! nat (1 + j) ! nat (1 + i)))"
    "\<bar>sint ax\<bar> \<le> M + 510 * int (length [- 1, 0, 1::int])"
    "\<bar>sint ay\<bar> \<le> M + 510 * int (length [- 1, 0, 1::int])"
    by blast
  have nx: "sint ax = sint sx + (\<Sum>j\<leftarrow>[- 1, 0, 1].
        tile_neighbour s bd tid i j * sint (c_sobel_x cm ! nat (1 + j) ! nat (1 + i)))"
    unfolding tile_neighbour_def by (rule a(2))
  have ny: "sint ay = sint sy + (\<Sum>j\<leftarrow>[- 1, 0, 1].
        tile_neighbour s bd tid i j * sint (c_sobel_y cm ! nat (1 + j) ! nat (1 + i)))"
    unfolding tile_neighbour_def by (rule a(3))
  have bx: "\<bar>sint ax\<bar> \<le> M + 1530" using a(4) by simp
  have bY: "\<bar>sint ay\<bar> \<le> M + 1530" using a(5) by simp
  have tl: "\<forall>i\<in>set rest. - 1 \<le> i \<and> i \<le> 1" using Cons.prems(1) by simp
  have M': "(M + 1530) + 1530 * int (length rest) \<le> 16000000"
    using Cons.prems(4) by simp
  from Cons.IH [OF tl bx bY M']
  obtain sx' sy' where r:
    "outer_loop cm s bd tid 1 rest (ax, ay) = Inr (sx', sy')"
    "sint sx' = sint ax + (\<Sum>i\<leftarrow>rest. \<Sum>j\<leftarrow>[- 1, 0, 1].
        tile_neighbour s bd tid i j * sint (c_sobel_x cm ! nat (1 + j) ! nat (1 + i)))"
    "sint sy' = sint ay + (\<Sum>i\<leftarrow>rest. \<Sum>j\<leftarrow>[- 1, 0, 1].
        tile_neighbour s bd tid i j * sint (c_sobel_y cm ! nat (1 + j) ! nat (1 + i)))"
    "\<bar>sint sx'\<bar> \<le> M + 1530 + 1530 * int (length rest)"
    "\<bar>sint sy'\<bar> \<le> M + 1530 + 1530 * int (length rest)"
    by blast
  have step: "outer_loop cm s bd tid 1 (i # rest) (sx, sy) = Inr (sx', sy')"
    by (simp only: outer_loop.simps Let_def upto_m1_1 a(1) sum.case r(1))
  have cons: "(\<Sum>i\<leftarrow>i # rest. F i) = F i + (\<Sum>i\<leftarrow>rest. F i)" for F :: "int \<Rightarrow> int"
    by simp
  have vx: "sint sx' = sint sx + (\<Sum>i\<leftarrow>i # rest. \<Sum>j\<leftarrow>[- 1, 0, 1].
        tile_neighbour s bd tid i j * sint (c_sobel_x cm ! nat (1 + j) ! nat (1 + i)))"
    unfolding r(2) nx cons by (rule add.assoc)
  have vy: "sint sy' = sint sy + (\<Sum>i\<leftarrow>i # rest. \<Sum>j\<leftarrow>[- 1, 0, 1].
        tile_neighbour s bd tid i j * sint (c_sobel_y cm ! nat (1 + j) ! nat (1 + i)))"
    unfolding r(3) ny cons by (rule add.assoc)
  have wx: "\<bar>sint sx'\<bar> \<le> M + 1530 * int (length (i # rest))"
    using r(4) by simp
  have wy: "\<bar>sint sy'\<bar> \<le> M + 1530 * int (length (i # rest))"
    using r(5) by simp
  show ?case
    using step vx vy wx wy by blast
qed

lemma tile_neighbour_sibling:
  assumes "0 < dim_x bd" "0 < dim_y bd"
  shows "tile_neighbour s bd tid i j = uint (s (crtShareIndex bd (neighbour_thread bd tid i j)))"
  using assms by (simp add: tile_neighbour_def tile_index_neighbour)

lemma thread_sums_linear:
  assumes "small_kernel (c_sobel_x cm)" "small_kernel (c_sobel_y cm)"
    and "0 < dim_x bd" "0 < dim_y bd" "radius kernel_width = 1"
  shows "\<exists>sum_x sum_y. thread_sums cm s bd tid kernel_width = Inr (sum_x, sum_y) \<and>
     sint sum_x = (\<Sum>i\<leftarrow>[- 1, 0, 1]. \<Sum>j\<leftarrow>[- 1, 0, 1].
        uint (s (crtShareIndex bd (neighbour_thread bd tid i j))) *
        sint (c_sobel_x cm ! nat (1 + j) ! nat (1 + i))) \<and>
     sint sum_y = (\<Sum>i\<leftarrow>[- 1, 0, 1]. \<Sum>j\<leftarrow>[- 1, 0, 1].
        uint (s (crtShareIndex bd (neighbour_thread bd tid i j))) *
        sint (c_sobel_y cm ! nat (1 + j) ! nat (1 + i)))"
proof -
  have rows: "\<forall>i\<in>set [- 1, 0, 1::int]. - 1 \<le> i \<and> i \<le> 1" by simp
  have z: "\<bar>sint (0::cint)\<bar> \<le> 0" by simp
  have M: "0 + 1530 * int (length [- 1, 0, 1::int]) \<le> 16000000" by simp
  from outer_loop_linear [OF assms(1,2) rows z z M, of s bd tid]
  obtain sx sy where r:
    "outer_loop cm s bd tid 1 [- 1, 0, 1] (0, 0) = Inr (sx, sy)"
    "sint sx = (\<Sum>i\<leftarrow>[- 1, 0, 1]. \<Sum>j\<leftarrow>[- 1, 0, 1].
        tile_neighbour s bd tid i j * sint (c_sobel_x cm ! nat (1 + j) ! nat (1 + i)))"
    "sint sy = (\<Sum>i\<leftarrow>[- 1, 0, 1]. \<Sum>j\<leftarrow>[- 1, 0, 1].
        tile_neighbour s bd tid i j * sint (c_sobel_y cm ! nat (1 + j) ! nat (1 + i)))"
    by auto
  have t: "thread_sums cm s bd tid kernel_width = Inr (sx, sy)"
    using r(1) by (simp add: thread_sums_def assms(5) upto_m1_1 del: outer_loop.simps)
  show ?thesis
    using t r(2,3) unfolding tile_neighbour_sibling [OF assms(3,4)] by blast
qed

lemma thread_sums_frame:
  assumes "0 < dim_x bd" "0 < dim_y bd" "r = radius kernel_width"
    and "\<forall>i\<in>set [- r..r]. \<forall>j\<in>set [- r..r].
           s (crtShareIndex bd (neighbour_thread bd tid i j)) =
           s' (crtShareIndex bd (neighbour_thread bd tid i j))"
  shows "thread_sums cm s bd tid kernel_width = thread_sums cm s' bd tid kernel_width"
  unfolding thread_sums_def Let_def
  using assms by (intro outer_loop_reads) (simp add: tile_index_neighbour)

text \<open>
  Claim C2. For every worker of a block and every pair of offsets \<open>i\<close>, \<open>j\<close> in
  \<open>[- r, r]\<close>, the loops of the kernel take their sample from the tile element of the
  sibling at the worker's own tile position plus the offset, with each coordinate that
  leaves the tile replaced by the tile's own edge, \<open>0\<close> or \<open>blockDim - 1\<close>. The sums of
  the loops depend on the tile through these elements only; with radius 1 and any small
  kernels they are the sums of these samples, each times the coefficient
  \<^verbatim>\<open>[r + j][r + i]\<close>. The position is a thread of the same block and the same batch
  layer; neither the block index nor the size of the image enters it.
\<close>

theorem tile_local_clamping:
  assumes "tid \<in> set (dim3_range bd)" and "r = radius kernel_width"
    and "small_kernel (c_sobel_x cm)" "small_kernel (c_sobel_y cm)"
  shows "tile_reads bd tid kernel_width =
           concat (map (\<lambda>i. map (\<lambda>j. crtShareIndex bd (neighbour_thread bd tid i j)) [- r..r])
             [- r..r]) \<and>
         ((\<forall>i\<in>set [- r..r]. \<forall>j\<in>set [- r..r].
              s (crtShareIndex bd (neighbour_thread bd tid i j)) =
              s' (crtShareIndex bd (neighbour_thread bd tid i j))) \<longrightarrow>
          thread_sums cm s bd tid kernel_width = thread_sums cm s' bd tid kernel_width) \<and>
         (r = 1 \<longrightarrow>
          (\<exists>sum_x sum_y. thread_sums cm s bd tid kernel_width = Inr (sum_x, sum_y) \<and>
             sint sum_x = (\<Sum>i\<leftarrow>[- 1, 0, 1]. \<Sum>j\<leftarrow>[- 1, 0, 1].
                uint (s (crtShareIndex bd (neighbour_thread bd tid i j))) *
                sint (c_sobel_x cm ! nat (1 + j) ! nat (1 + i))) \<and>
             sint sum_y = (\<Sum>i\<leftarrow>[- 1, 0, 1]. \<Sum>j\<leftarrow>[- 1, 0, 1].
                uint (s (crtShareIndex bd (neighbour_thread bd tid i j))) *
                sint (c_sobel_y cm ! nat (1 + j) ! nat (1 + i))))) \<and>
         (\<forall>i j. neighbour_thread bd tid i j \<in> set (dim3_range bd) \<and>
            dim_z (neighbour_thread bd tid i j) = dim_z tid \<and>
            int (dim_y (neighbour_thread bd tid i j)) =
              (if int (dim_y tid) + i < 0 then 0
               else if int (dim_y tid) + i > int (dim_y bd) - 1 then int (dim_y bd) - 1
               else int (dim_y tid) + i) \<and>
            int (dim_x (neighbour_thread bd tid i j)) =
              (if int (dim_x tid) + j < 0 then 0
               else if int (dim_x tid) + j > int (dim_x bd) - 1 then int (dim_x bd) - 1
               else int (dim_x tid) + j))"
proof -
  from assms(1) have p: "0 < dim_x bd" "0 < dim_y bd" "dim_z tid < dim_z bd"
    by (auto simp: in_dim3_range)
  have 1: "tile_reads bd tid kernel_width =
           concat (map (\<lambda>i. map (\<lambda>j. crtShareIndex bd (neighbour_thread bd tid i j)) [- r..r])
             [- r..r])"
    using p by (simp add: tile_reads_def Let_def assms(2) tile_index_neighbour)
  have 2: "neighbour_thread bd tid i j \<in> set (dim3_range bd)" for i j
    using p by (rule neighbour_thread_in_block)
  have 3: "int (dim_y (neighbour_thread bd tid i j)) =
              (if int (dim_y tid) + i < 0 then 0
               else if int (dim_y tid) + i > int (dim_y bd) - 1 then int (dim_y bd) - 1
               else int (dim_y tid) + i)" for i j
    using p by (auto simp: neighbour_thread_def nearest_in_tile_def)
  have 4: "int (dim_x (neighbour_thread bd tid i j)) =
              (if int (dim_x tid) + j < 0 then 0
               else if int (dim_x tid) + j > int (dim_x bd) - 1 then int (dim_x bd) - 1
               else int (dim_x tid) + j)" for i j
    using p by (auto simp: neighbour_thread_def nearest_in_tile_def)
  have 5: "dim_z (neighbour_thread bd tid i j) = dim_z tid" for i j
    by (simp add: neighbour_thread_def)
  have 6: "(\<forall>i\<in>set [- r..r]. \<forall>j\<in>set [- r..r].
              s (crtShareIndex bd (neighbour_thread bd tid i j)) =
              s' (crtShareIndex bd (neighbour_thread bd tid i j))) \<longrightarrow>
          thread_sums cm s bd tid kernel_width = thread_sums cm s' bd tid kernel_width"
    using thread_sums_frame [OF p(1,2) assms(2)] by blast
  have 7: "r = 1 \<longrightarrow>
          (\<exists>sum_x sum_y. thread_sums cm s bd tid kernel_width = Inr (sum_x, sum_y) \<and>
             sint sum_x = (\<Sum>i\<leftarrow>[- 1, 0, 1]. \<Sum>j\<leftarrow>[- 1, 0, 1].
                uint (s (crtShareIndex bd (neighbour_thread bd tid i j))) *
                sint (c_sobel_x cm ! nat (1 + j) ! nat (1 + i))) \<and>
             sint sum_y = (\<Sum>i\<leftarrow>[- 1, 0, 1]. \<Sum>j\<leftarrow>[- 1, 0, 1].
                uint (s (crtShareIndex bd (neighbour_thread bd tid i j))) *
                sint (c_sobel_y cm ! nat (1 + j) ! nat (1 + i))))"
    using thread_sums_linear [OF assms(3,4) p(1,2), of kernel_width s tid] assms(2) by simp
  show ?thesis using 1 2 3 4 5 6 7 by blast
qed

text \<open>
  The worker in the top right corner of a 16 by 16 tile: the row above it is clamped to
  row 0 and the column right of it to column 15, wherever the tile lies in the image.
  With a tile that holds its own index in every element and an x kernel that is 1 at
  \<^verbatim>\<open>[2][0]\<close> only (offsets \<open>i = - 1\<close>, \<open>j = 1\<close>), the loops return 15, the index of
  the worker's own element; a change of tile element 0, which is none of the nine, leaves
  the sums as they are.
\<close>

theorem tile_local_clamping_witness:
  "\<lparr>dim_x = 15, dim_y = 0, dim_z = 0\<rparr> \<in> set (dim3_range (blockDimHist 1)) \<and>
   1 = radius sobel_width \<and>
   small_kernel [[0, 0, 0], [0, 0, 0], [1, 0, 0]] \<and>
   small_kernel h_sobel_y \<and>
   tile_reads (blockDimHist 1) \<lparr>dim_x = 15, dim_y = 0, dim_z = 0\<rparr> sobel_width =
     [14, 15, 15, 14, 15, 15, 30, 31, 31] \<and>
   thread_sums \<lparr>c_sobel_x = [[0, 0, 0], [0, 0, 0], [1, 0, 0]], c_sobel_y = h_sobel_y\<rparr>
     of_nat (blockDimHist 1) \<lparr>dim_x = 15, dim_y = 0, dim_z = 0\<rparr> sobel_width =
   thread_sums \<lparr>c_sobel_x = [[0, 0, 0], [0, 0, 0], [1, 0, 0]], c_sobel_y = h_sobel_y\<rparr>
     (of_nat(0 := 99)) (blockDimHist 1) \<lparr>dim_x = 15, dim_y = 0, dim_z = 0\<rparr> sobel_width \<and>
   (\<exists>sum_x sum_y.
      thread_sums \<lparr>c_sobel_x = [[0, 0, 0], [0, 0, 0], [1, 0, 0]], c_sobel_y = h_sobel_y\<rparr>
        of_nat (blockDimHist 1) \<lparr>dim_x = 15, dim_y = 0, dim_z = 0\<rparr> sobel_width =
        Inr (sum_x, sum_y) \<and>
      sint sum_x = 15) \<and>
   neighbour_thread (blockDimHist 1) \<lparr>dim_x = 15, dim_y = 0, dim_z = 0\<rparr> (- 1) 1 =
     \<lparr>dim_x = 15, dim_y = 0, dim_z = 0\<rparr>"
proof -
  have h1: "\<lparr>dim_x = 15, dim_y = 0, dim_z = 0\<rparr> \<in> set (dim3_range (blockDimHist 1))"
    by (simp add: in_dim3_range blockDimHist_def)
  have h2: "1 = radius sobel_width"
    by (simp add: radius_def sobel_width_def)
  have h3: "small_kernel (c_sobel_x
      \<lparr>c_sobel_x = [[0, 0, 0], [0, 0, 0], [1, 0, 0]], c_sobel_y = h_sobel_y\<rparr>)"
    by (simp add: small_kernel_def)
  have h4: "small_kernel (c_sobel_y
      \<lparr>c_sobel_x = [[0, 0, 0], [0, 0, 0], [1, 0, 0]], c_sobel_y = h_sobel_y\<rparr>)"
    by (simp add: small_kernel_def h_sobel_y_def)
  note t = tile_local_clamping [OF h1 h2 h3 h4, of of_nat "of_nat(0 := 99)"]
  have "tile_reads (blockDimHist 1) \<lparr>dim_x = 15, dim_y = 0, dim_z = 0\<rparr> sobel_width =
      concat (map (\<lambda>i. map (\<lambda>j. crtShareIndex (blockDimHist 1)
        (neighbour_thread (blockDimHist 1) \<lparr>dim_x = 15, dim_y = 0, dim_z = 0\<rparr> i j)) [- 1..1])
        [- 1..1])"
    using t by blast
  also have "\<dots> = [14, 15, 15, 14, 15, 15, 30, 31, 31]"
    by code_simp
  finally have r: "tile_reads (blockDimHist 1) \<lparr>dim_x = 15, dim_y = 0, dim_z = 0\<rparr> sobel_width =
     [14, 15, 15, 14, 15, 15, 30, 31, 31]" .
  have n: "neighbour_thread (blockDimHist 1) \<lparr>dim_x = 15, dim_y = 0, dim_z = 0\<rparr> (- 1) 1 =
     \<lparr>dim_x = 15, dim_y = 0, dim_z = 0\<rparr>"
    by (simp add: neighbour_thread_def nearest_in_tile_def blockDimHist_def)
  have agree: "\<forall>i\<in>set [- 1..1]. \<forall>j\<in>set [- 1..1].
      (of_nat :: nat \<Rightarrow> uchar) (crtShareIndex (blockDimHist 1)
         (neighbour_thread (blockDimHist 1) \<lparr>dim_x = 15, dim_y = 0, dim_z = 0\<rparr> i j)) =
      (of_nat(0 := 99)) (crtShareIndex (blockDimHist 1)
         (neighbour_thread (blockDimHist 1) \<lparr>dim_x = 15, dim_y = 0, dim_z = 0\<rparr> i j))"
    unfolding upto_m1_1
    by (simp add: neighbour_thread_def nearest_in_tile_def blockDimHist_def crtShareIndex_def)
  have f: "thread_sums \<lparr>c_sobel_x = [[0, 0, 0], [0, 0, 0], [1, 0, 0]], c_sobel_y = h_sobel_y\<rparr>
     of_nat (blockDimHist 1) \<lparr>dim_x = 15, dim_y = 0, dim_z = 0\<rparr> sobel_width =
   thread_sums \<lparr>c_sobel_x = [[0, 0, 0], [0, 0, 0], [1, 0, 0]], c_sobel_y = h_sobel_y\<rparr>
     (of_nat(0 := 99)) (blockDimHist 1) \<lparr>dim_x = 15, dim_y = 0, dim_z = 0\<rparr> sobel_width"
    using t agree by blast
  from t obtain sum_x sum_y where
    s: "thread_sums \<lparr>c_sobel_x = [[0, 0, 0], [0, 0, 0], [1, 0, 0]], c_sobel_y = h_sobel_y\<rparr>
        of_nat (blockDimHist 1) \<lparr>dim_x = 15, dim_y = 0, dim_z = 0\<rparr> sobel_width =
        Inr (sum_x, sum_y)"
    and v: "sint sum_x = (\<Sum>i\<leftarrow>[- 1, 0, 1]. \<Sum>j\<leftarrow>[- 1, 0, 1].
                uint ((of_nat :: nat \<Rightarrow> uchar) (crtShareIndex (blockDimHist 1)
                  (neighbour_thread (blockDimHist 1) \<lparr>dim_x = 15, dim_y = 0, dim_z = 0\<rparr> i j))) *
                sint (c_sobel_x \<lparr>c_sobel_x = [[0, 0, 0], [0, 0, 0], [1, 0, 0]],
                        c_sobel_y = h_sobel_y\<rparr> ! nat (1 + j) ! nat (1 + i)))"
    by auto
  have "sint sum_x = 15"
    unfolding v
    by (simp add: neighbour_thread_def nearest_in_tile_def blockDimHist_def crtShareIndex_def)
  with s have e: "\<exists>sum_x sum_y.
      thread_sums \<lparr>c_sobel_x = [[0, 0, 0], [0, 0, 0], [1, 0, 0]], c_sobel_y = h_sobel_y\<rparr>
        of_nat (blockDimHist 1) \<lparr>dim_x = 15, dim_y = 0, dim_z = 0\<rparr> sobel_width =
        Inr (sum_x, sum_y) \<and>
      sint sum_x = 15" by blast
  have k3: "small_kernel [[0, 0, 0], [0, 0, 0], [1, 0, 0]]"
    using h3 by simp
  have k4: "small_kernel h_sobel_y"
    using h4 by simp
  show ?thesis using h1 h2 k3 k4 r f e n by (intro conjI)
qed

subsection \<open>The accumulators do not overflow\<close>

lemma fold_accumulate_exact:
  assumes "list_all (\<lambda>(p, c). \<bar>sint c\<bar> \<le> 2) terms"
    and "\<bar>sint s0\<bar> \<le> M" "M + 510 * int (length terms) \<le> 16000000"
  shows "sint (fold (\<lambda>(p, c) s. accumulate s (uchar_to_float p) c) terms s0) =
           sint s0 + (\<Sum>(p, c)\<leftarrow>terms. uint p * sint c) \<and>
         \<bar>sint s0 + (\<Sum>(p, c)\<leftarrow>terms. uint p * sint c)\<bar> \<le> M + 510 * int (length terms)"
  using assms
proof (induction terms arbitrary: s0 M)
  case Nil
  then show ?case by simp
next
  case (Cons t terms)
  obtain p c where t: "t = (p, c)" by (cases t)
  from Cons.prems(1) t have c: "\<bar>sint c\<bar> \<le> 2" and rest: "list_all (\<lambda>(p, c). \<bar>sint c\<bar> \<le> 2) terms"
    by auto
  from Cons.prems have M: "M \<le> 16000000" by simp
  have a: "sint (accumulate s0 (uchar_to_float p) c) = sint s0 + uint p * sint c"
    using Cons.prems(2) M c by (intro accumulate_exact) auto
  have b: "\<bar>sint (accumulate s0 (uchar_to_float p) c)\<bar> \<le> M + 510"
    using pix_coef_bound [OF c, of p] Cons.prems(2) unfolding a by linarith
  have M': "(M + 510) + 510 * int (length terms) \<le> 16000000"
    using Cons.prems(3) by simp
  from Cons.IH [OF rest b M'] show ?case
    by (simp add: t a algebra_simps)
qed

text \<open>
  Claim C8. The accumulators \<^verbatim>\<open>sum_x\<close> and \<^verbatim>\<open>sum_y\<close> have the type \<^verbatim>\<open>int\<close>, signed and
  at least 16 bits wide. Summing up to 9 terms, each an 8-bit sample times a coefficient
  in \<open>[- 2, 2]\<close>, never overflows the accumulator: after the last term it holds the
  exact sum, which lies strictly inside the signed 16-bit range (and so does the sum
  after every earlier term, a shorter list). For the kernel as launched, both sums of
  every thread are the exact convolutions and lie in that range.
\<close>

theorem accumulators_never_overflow:
  assumes "length terms \<le> 9" and "list_all (\<lambda>(p, c). \<bar>sint c\<bar> \<le> 2) terms"
  shows "sint (fold (\<lambda>(p, c) s. accumulate s (uchar_to_float p) c) terms 0) =
           (\<Sum>(p, c)\<leftarrow>terms. uint p * sint c) \<and>
         - (2 ^ 15) < (\<Sum>(p, c)\<leftarrow>terms. uint p * sint c) \<and>
         (\<Sum>(p, c)\<leftarrow>terms. uint p * sint c) < 2 ^ 15 \<and>
         (\<exists>sum_x sum_y.
            thread_sums setSobelKernels s_input2 bd tid sobel_width = Inr (sum_x, sum_y) \<and>
            16 \<le> size sum_x \<and> 16 \<le> size sum_y \<and>
            sint sum_x = convolve3 h_sobel_y (tile_neighbour s_input2 bd tid) \<and>
            sint sum_y = convolve3 h_sobel_x (tile_neighbour s_input2 bd tid) \<and>
            - (2 ^ 15) < sint sum_x \<and> sint sum_x < 2 ^ 15 \<and>
            - (2 ^ 15) < sint sum_y \<and> sint sum_y < 2 ^ 15)"
proof -
  have z: "\<bar>sint (0::cint)\<bar> \<le> 0" by simp
  have M: "0 + 510 * int (length terms) \<le> 16000000" using assms(1) by simp
  from fold_accumulate_exact [OF assms(2) z M]
  have f: "sint (fold (\<lambda>(p, c) s. accumulate s (uchar_to_float p) c) terms 0) =
           (\<Sum>(p, c)\<leftarrow>terms. uint p * sint c)"
    and b: "\<bar>\<Sum>(p, c)\<leftarrow>terms. uint p * sint c\<bar> \<le> 510 * int (length terms)"
    by simp_all
  have b': "\<bar>\<Sum>(p, c)\<leftarrow>terms. uint p * sint c\<bar> \<le> 4590"
    using b assms(1) by simp
  obtain sx sy where t: "thread_sums setSobelKernels s_input2 bd tid 3 = Inr (sx, sy)"
     "sint sx = convolve3 h_sobel_y (tile_neighbour s_input2 bd tid)"
     "sint sy = convolve3 h_sobel_x (tile_neighbour s_input2 bd tid)"
     "\<bar>sint sx\<bar> \<le> 4590" "\<bar>sint sy\<bar> \<le> 4590"
    using thread_sums_exact [of s_input2 bd tid] by blast
  have k: "(\<exists>sum_x sum_y.
            thread_sums setSobelKernels s_input2 bd tid sobel_width = Inr (sum_x, sum_y) \<and>
            16 \<le> size sum_x \<and> 16 \<le> size sum_y \<and>
            sint sum_x = convolve3 h_sobel_y (tile_neighbour s_input2 bd tid) \<and>
            sint sum_y = convolve3 h_sobel_x (tile_neighbour s_input2 bd tid) \<and>
            - (2 ^ 15) < sint sum_x \<and> sint sum_x < 2 ^ 15 \<and>
            - (2 ^ 15) < sint sum_y \<and> sint sum_y < 2 ^ 15)"
    apply (rule exI [of _ sx], rule exI [of _ sy])
    using t by (auto simp: sobel_width_def word_size)
  show ?thesis using f b' k by auto
qed

text \<open>Five terms, and the thread at an edge between rows 7 and 8 of a full tile.\<close>

theorem accumulators_never_overflow_witness:
  "sint (fold (\<lambda>(p, c) s. accumulate s (uchar_to_float p) c)
      [(255, 2), (255, 1), (255, 1), (0, - 2), (7, - 1)] (0 :: cint)) = 1013 \<and>
   (\<exists>sum_x sum_y.
      thread_sums setSobelKernels (\<lambda>k. if k < 128 then 0 else 255) (blockDimHist 1)
        \<lparr>dim_x = 5, dim_y = 7, dim_z = 0\<rparr> sobel_width = Inr (sum_x, sum_y) \<and>
      sint sum_x < 2 ^ 15 \<and> sint sum_y < 2 ^ 15)"
proof -
  have h1: "length [(255 :: uchar, 2 :: cint), (255, 1), (255, 1), (0, - 2), (7, - 1)] \<le> 9"
    by simp
  have h2: "list_all (\<lambda>(p, c). \<bar>sint c\<bar> \<le> 2)
      [(255 :: uchar, 2 :: cint), (255, 1), (255, 1), (0, - 2), (7, - 1)]"
    by simp
  show ?thesis
    using accumulators_never_overflow [OF h1 h2, of "\<lambda>k. if k < 128 then 0 else 255"
        "blockDimHist 1" "\<lparr>dim_x = 5, dim_y = 7, dim_z = 0\<rparr>"]
    by auto
qed

subsection \<open>Transposed coefficient indexing\<close>

lemma index_cases: "0 \<le> a \<Longrightarrow> a < 3 \<Longrightarrow> a = 0 \<or> a = 1 \<or> a = (2::int)"
  by arith

lemma c_read_transposed: "c_read h_sobel_y a b = c_read h_sobel_x b a"
proof (cases "0 \<le> a \<and> a < 3 \<and> 0 \<le> b \<and> b < 3")
  case True
  then have "a = 0 \<or> a = 1 \<or> a = 2" "b = 0 \<or> b = 1 \<or> b = 2"
    by (auto intro: index_cases)
  then show ?thesis
    by (auto simp: c_read_def sobel_width_def h_sobel_x_def h_sobel_y_def)
next
  case False
  then show ?thesis by (auto simp: c_read_def sobel_width_def)
qed

lemma h_sobel_y_transpose: "h_sobel_y = transpose h_sobel_x"
  by code_simp

lemma c_read_both:
  "(c_read K a b = Inl OutOfBounds \<and> c_read K' a b = Inl OutOfBounds) \<or>
   (\<exists>c c'. c_read K a b = Inr c \<and> c_read K' a b = Inr c')"
  by (simp add: c_read_def)

lemma inner_loop_swap:
  "inner_loop_untransposed setSobelKernels s bd tid r i crtY js (sy, sx) =
   map_sum id prod.swap (inner_loop setSobelKernels s bd tid r i crtY js (sx, sy))"
proof (induction js arbitrary: sx sy)
  case Nil
  show ?case by simp
next
  case (Cons j js)
  have x: "c_read (c_sobel_x setSobelKernels) (r + i) (r + j) =
           c_read (c_sobel_y setSobelKernels) (r + j) (r + i)"
    by (simp add: setSobelKernels_def c_read_transposed)
  have y: "c_read (c_sobel_y setSobelKernels) (r + i) (r + j) =
           c_read (c_sobel_x setSobelKernels) (r + j) (r + i)"
    by (simp add: setSobelKernels_def c_read_transposed)
  from c_read_both [of "c_sobel_x setSobelKernels" "r + j" "r + i" "c_sobel_y setSobelKernels"]
  show ?case
  proof
    assume "c_read (c_sobel_x setSobelKernels) (r + j) (r + i) = Inl OutOfBounds \<and>
            c_read (c_sobel_y setSobelKernels) (r + j) (r + i) = Inl OutOfBounds"
    then show ?thesis by (simp add: x y)
  next
    assume "\<exists>c c'. c_read (c_sobel_x setSobelKernels) (r + j) (r + i) = Inr c \<and>
            c_read (c_sobel_y setSobelKernels) (r + j) (r + i) = Inr c'"
    then obtain c c' where "c_read (c_sobel_x setSobelKernels) (r + j) (r + i) = Inr c"
      "c_read (c_sobel_y setSobelKernels) (r + j) (r + i) = Inr c'" by blast
    then show ?thesis by (simp add: x y Cons.IH Let_def)
  qed
qed

lemma outer_loop_swap:
  "outer_loop_untransposed setSobelKernels s bd tid r is (sy, sx) =
   map_sum id prod.swap (outer_loop setSobelKernels s bd tid r is (sx, sy))"
proof (induction "is" arbitrary: sx sy)
  case Nil
  show ?case by simp
next
  case (Cons i rest)
  show ?case
    by (cases "inner_loop setSobelKernels s bd tid r i (clamp_crt (int (dim_y tid) + i) (dim_y bd))
                 [- r..r] (sx, sy)")
       (auto simp: inner_loop_swap Cons.IH Let_def)
qed

lemma thread_sums_swap:
  "thread_sums_untransposed setSobelKernels s bd tid kernel_width =
   map_sum id prod.swap (thread_sums setSobelKernels s bd tid kernel_width)"
  using outer_loop_swap [of s bd tid "radius kernel_width" _ 0 0]
  by (simp add: thread_sums_untransposed_def thread_sums_def Let_def)

lemma magnitude_swap: "magnitude (prod.swap acc) = magnitude acc"
  by (cases acc) (simp add: magnitude_mod add.commute)

text \<open>
  Claim C9. The kernel reads the coefficient \<^verbatim>\<open>[r + j][r + i]\<close> for row offset \<open>i\<close> and
  column offset \<open>j\<close>. The stored y kernel is the transpose of the stored x kernel, so
  this indexing exchanges the two sums: what the kernel accumulates in \<^verbatim>\<open>sum_x\<close> is what
  untransposed indexing accumulates in \<^verbatim>\<open>sum_y\<close>, and conversely. The stored magnitude
  is the same, for every tile, every thread and every kernel width.
\<close>

theorem transposed_indexing_same_output:
  "h_sobel_y = transpose h_sobel_x \<and>
   thread_sums_untransposed setSobelKernels s_input2 bd tid kernel_width =
     map_sum id prod.swap (thread_sums setSobelKernels s_input2 bd tid kernel_width) \<and>
   thread_pixel_untransposed setSobelKernels s_input2 bd tid kernel_width =
     thread_pixel setSobelKernels s_input2 bd tid kernel_width"
proof -
  have "thread_pixel_untransposed setSobelKernels s_input2 bd tid kernel_width =
     thread_pixel setSobelKernels s_input2 bd tid kernel_width"
    by (cases "thread_sums setSobelKernels s_input2 bd tid kernel_width")
       (simp_all add: thread_pixel_untransposed_def thread_pixel_def thread_sums_swap magnitude_swap)
  then show ?thesis
    using h_sobel_y_transpose thread_sums_swap by blast
qed

subsection \<open>What the two phases of a block leave in the tile and in the output\<close>

text \<open>
  Flat indices identify their thread: the shared index within a block, the global index
  among the threads inside the image. A location that some thread writes, and to which all
  its writers write the same value, holds that value afterwards; a location without a
  writer keeps its old contents.
\<close>

lemma mixed_radix_inj:
  fixes a a' q q' n :: nat
  assumes "a < n" "a' < n" "q * n + a = q' * n + a'"
  shows "q = q' \<and> a = a'"
proof -
  have "(q * n + a) div n = (q' * n + a') div n" using assms(3) by simp
  then have q: "q = q'" using assms(1,2) by simp
  with assms(3) show ?thesis by simp
qed

lemma crtShareIndex_inj:
  assumes "t \<in> set (dim3_range bd)" "t' \<in> set (dim3_range bd)"
    and "crtShareIndex bd t = crtShareIndex bd t'"
  shows "t = t'"
proof -
  from assms(1,2) have b: "dim_x t < dim_x bd" "dim_x t' < dim_x bd"
    "dim_y t < dim_y bd" "dim_y t' < dim_y bd"
    by (auto simp: in_dim3_range)
  have "(dim_z t * dim_y bd + dim_y t) * dim_x bd + dim_x t =
        (dim_z t' * dim_y bd + dim_y t') * dim_x bd + dim_x t'"
    using assms(3) by (simp add: crtShareIndex_def algebra_simps)
  from mixed_radix_inj [OF b(1,2) this]
  have 1: "dim_z t * dim_y bd + dim_y t = dim_z t' * dim_y bd + dim_y t'" and x: "dim_x t = dim_x t'"
    by auto
  from mixed_radix_inj [OF b(3,4) 1] have "dim_z t = dim_z t'" "dim_y t = dim_y t'" by auto
  with x show ?thesis by simp
qed

lemma crtGlobalIndex_inj:
  assumes "valid_thread width height bid bd t" "valid_thread width height bid' bd t'"
    and "crtGlobalIndex width height bid bd t = crtGlobalIndex width height bid' bd t'"
  shows "dim_z t = dim_z t' \<and> global_y bid bd t = global_y bid' bd t' \<and>
         global_x bid bd t = global_x bid' bd t'"
proof -
  from assms(1,2) have b: "global_x bid bd t < width" "global_x bid' bd t' < width"
    "global_y bid bd t < height" "global_y bid' bd t' < height"
    by (auto simp: valid_thread_def)
  have "(dim_z t * height + global_y bid bd t) * width + global_x bid bd t =
        (dim_z t' * height + global_y bid' bd t') * width + global_x bid' bd t'"
    using assms(3) by (simp add: crtGlobalIndex_def algebra_simps)
  from mixed_radix_inj [OF b(1,2) this]
  have 1: "dim_z t * height + global_y bid bd t = dim_z t' * height + global_y bid' bd t'"
    and x: "global_x bid bd t = global_x bid' bd t'"
    by auto
  from mixed_radix_inj [OF b(3,4) 1] x show ?thesis by auto
qed

lemma load_fold_frame:
  assumes "\<forall>t\<in>set tids. valid_thread width height bid bd t \<longrightarrow> crtShareIndex bd t \<noteq> k"
  shows "fold (load_thread d_input width height bid bd) tids st k = st k"
  using assms by (induction tids arbitrary: st) (auto simp: load_thread_def)

lemma load_fold_written:
  assumes "\<exists>t\<in>set tids. valid_thread width height bid bd t \<and> crtShareIndex bd t = k"
    and "\<forall>t\<in>set tids. valid_thread width height bid bd t \<longrightarrow> crtShareIndex bd t = k \<longrightarrow>
           d_input (crtGlobalIndex width height bid bd t) = v"
  shows "fold (load_thread d_input width height bid bd) tids st k = v"
  using assms
proof (induction tids arbitrary: st)
  case Nil
  then show ?case by simp
next
  case (Cons t tids)
  show ?case
  proof (cases "\<exists>t\<in>set tids. valid_thread width height bid bd t \<and> crtShareIndex bd t = k")
    case True
    then show ?thesis using Cons.IH Cons.prems(2) by simp
  next
    case False
    then have f: "fold (load_thread d_input width height bid bd) tids
                 (load_thread d_input width height bid bd t st) k =
               load_thread d_input width height bid bd t st k"
      by (intro load_fold_frame) auto
    from False Cons.prems(1) have "valid_thread width height bid bd t" "crtShareIndex bd t = k"
      by auto
    then have "load_thread d_input width height bid bd t st k = v"
      using Cons.prems(2) by (simp add: load_thread_def)
    with f show ?thesis by simp
  qed
qed

lemma load_phase_valid:
  assumes "t \<in> set (dim3_range bd)" "valid_thread width height bid bd t"
  shows "load_phase d_input width height bid bd stale (crtShareIndex bd t) =
         d_input (crtGlobalIndex width height bid bd t)"
  unfolding load_phase_def
proof (rule load_fold_written)
  show "\<exists>t'\<in>set (dim3_range bd). valid_thread width height bid bd t' \<and>
          crtShareIndex bd t' = crtShareIndex bd t"
    using assms by blast
  show "\<forall>t'\<in>set (dim3_range bd). valid_thread width height bid bd t' \<longrightarrow>
          crtShareIndex bd t' = crtShareIndex bd t \<longrightarrow>
          d_input (crtGlobalIndex width height bid bd t') = d_input (crtGlobalIndex width height bid bd t)"
    using assms(1) crtShareIndex_inj by blast
qed

lemma load_phase_stale:
  assumes "\<forall>t\<in>set (dim3_range bd). valid_thread width height bid bd t \<longrightarrow> crtShareIndex bd t \<noteq> k"
  shows "load_phase d_input width height bid bd stale k = stale k"
  unfolding load_phase_def using assms by (rule load_fold_frame)


lemma store_phase_frame:
  assumes "store_phase cm s width height kernel_width bid bd tids out = Inr out'"
    and "\<forall>t\<in>set tids. valid_thread width height bid bd t \<longrightarrow>
           crtGlobalIndex width height bid bd t \<noteq> k"
  shows "out' k = out k"
  using assms
  by (induction tids arbitrary: out) (auto simp: store_thread_def split: sum.splits if_splits)

lemma store_phase_written:
  assumes "store_phase cm s width height kernel_width bid bd tids out = Inr out'"
    and "\<exists>t\<in>set tids. valid_thread width height bid bd t \<and> crtGlobalIndex width height bid bd t = k"
    and "\<forall>t\<in>set tids. valid_thread width height bid bd t \<longrightarrow>
           crtGlobalIndex width height bid bd t = k \<longrightarrow> thread_pixel cm s bd t kernel_width = Inr v"
  shows "out' k = v"
  using assms
proof (induction tids arbitrary: out)
  case Nil
  then show ?case by simp
next
  case (Cons t tids)
  from Cons.prems(1) obtain out1 where
    o1: "store_thread cm s width height kernel_width bid bd t out = Inr out1" and
    o2: "store_phase cm s width height kernel_width bid bd tids out1 = Inr out'"
    by (auto split: sum.splits)
  show ?case
  proof (cases "\<exists>t\<in>set tids. valid_thread width height bid bd t \<and>
                  crtGlobalIndex width height bid bd t = k")
    case True
    then show ?thesis using Cons.IH [OF o2] Cons.prems(3) by simp
  next
    case False
    then have "out' k = out1 k"
      using store_phase_frame [OF o2, of k] by auto
    moreover from False Cons.prems(2) have "valid_thread width height bid bd t"
      "crtGlobalIndex width height bid bd t = k"
      by auto
    ultimately show ?thesis using Cons.prems(3) o1 by (auto simp: store_thread_def)
  qed
qed

subsection \<open>The launch\<close>


lemma run_blocks_frame:
  assumes "run_blocks bd stale cm d_input width height kernel_width bids out = Inr out'"
    and "\<forall>b\<in>set bids. \<forall>t\<in>set (dim3_range bd). valid_thread width height b bd t \<longrightarrow>
           crtGlobalIndex width height b bd t \<noteq> k"
  shows "out' k = out k"
  using assms
proof (induction bids arbitrary: out)
  case Nil
  then show ?case by simp
next
  case (Cons b bids)
  from Cons.prems(1) obtain out1 where
    o1: "run_block bd (stale b) cm d_input width height kernel_width b out = Inr out1" and
    o2: "run_blocks bd stale cm d_input width height kernel_width bids out1 = Inr out'"
    by (auto split: sum.splits)
  have "out1 k = out k"
    using o1 Cons.prems(2) unfolding run_block_def by (intro store_phase_frame) auto
  moreover have "out' k = out1 k"
    using Cons.IH [OF o2] Cons.prems(2) by simp
  ultimately show ?case by simp
qed

lemma run_blocks_written:
  assumes "run_blocks bd stale cm d_input width height kernel_width bids out = Inr out'"
    and "\<exists>b\<in>set bids. \<exists>t\<in>set (dim3_range bd). valid_thread width height b bd t \<and>
           crtGlobalIndex width height b bd t = k"
    and "\<forall>b\<in>set bids. \<forall>t\<in>set (dim3_range bd). valid_thread width height b bd t \<longrightarrow>
           crtGlobalIndex width height b bd t = k \<longrightarrow>
           thread_pixel cm (load_phase d_input width height b bd (stale b)) bd t kernel_width = Inr v"
  shows "out' k = v"
  using assms
proof (induction bids arbitrary: out)
  case Nil
  then show ?case by simp
next
  case (Cons b bids)
  from Cons.prems(1) obtain out1 where
    o1: "run_block bd (stale b) cm d_input width height kernel_width b out = Inr out1" and
    o2: "run_blocks bd stale cm d_input width height kernel_width bids out1 = Inr out'"
    by (auto split: sum.splits)
  show ?case
  proof (cases "\<exists>b\<in>set bids. \<exists>t\<in>set (dim3_range bd). valid_thread width height b bd t \<and>
           crtGlobalIndex width height b bd t = k")
    case True
    then show ?thesis using Cons.IH [OF o2] Cons.prems(3) by simp
  next
    case False
    then have "out' k = out1 k"
      using run_blocks_frame [OF o2, of k] by auto
    moreover from False Cons.prems(2) have
      "\<exists>t\<in>set (dim3_range bd). valid_thread width height b bd t \<and>
           crtGlobalIndex width height b bd t = k"
      by auto
    then have "out1 k = v"
      using o1 Cons.prems(3) unfolding run_block_def by (intro store_phase_written) auto
    ultimately show ?thesis by simp
  qed
qed

text \<open>With the kernels of the host and kernel width 3 no thread fails.\<close>

lemma thread_pixel_3:
  "thread_pixel setSobelKernels s bd tid 3 =
   Inr (word_of_int ((\<bar>convolve3 h_sobel_x (tile_neighbour s bd tid)\<bar> +
                      \<bar>convolve3 h_sobel_y (tile_neighbour s bd tid)\<bar>) mod 256))"
proof -
  obtain sx sy where t: "thread_sums setSobelKernels s bd tid 3 = Inr (sx, sy)"
     "sint sx = convolve3 h_sobel_y (tile_neighbour s bd tid)"
     "sint sy = convolve3 h_sobel_x (tile_neighbour s bd tid)"
    using thread_sums_exact [of s bd tid] by blast
  then show ?thesis
    by (simp add: thread_pixel_def magnitude_mod add.commute)
qed


lemma convolve3_cong:
  assumes "\<And>i j. i \<in> {- 1, 0, 1} \<Longrightarrow> j \<in> {- 1, 0, 1} \<Longrightarrow> N i j = N' i j"
  shows "convolve3 K N = convolve3 K N'"
  using assms by (simp add: convolve3_def)

lemma neighbourhood_loaded_iff:
  "neighbourhood_loaded width height bid bd tid \<longleftrightarrow>
   (\<forall>i\<in>{- 1, 0, 1}. \<forall>j\<in>{- 1, 0, 1}. valid_thread width height bid bd (neighbour_thread bd tid i j))"
  by (simp add: neighbourhood_loaded_def valid_thread_def global_x_def global_y_def)

lemma tile_neighbour_loaded:
  assumes "tid \<in> set (dim3_range bd)"
    and "valid_thread width height bid bd (neighbour_thread bd tid i j)"
  shows "tile_neighbour (load_phase d_input width height bid bd stale) bd tid i j =
         input_neighbour d_input width height bid bd tid i j"
proof -
  from assms(1) have p: "0 < dim_x bd" "0 < dim_y bd" "dim_z tid < dim_z bd"
    by (auto simp: in_dim3_range)
  have n: "neighbour_thread bd tid i j \<in> set (dim3_range bd)"
    using p by (rule neighbour_thread_in_block)
  have "tile_neighbour (load_phase d_input width height bid bd stale) bd tid i j =
        uint (load_phase d_input width height bid bd stale
               (crtShareIndex bd (neighbour_thread bd tid i j)))"
    using p by (simp add: tile_neighbour_def tile_index_neighbour)
  also have "\<dots> = uint (d_input (crtGlobalIndex width height bid bd (neighbour_thread bd tid i j)))"
    using n assms(2) by (simp add: load_phase_valid)
  also have "\<dots> = input_neighbour d_input width height bid bd tid i j"
    by (simp add: input_neighbour_def pixel_at_def crtGlobalIndex_def global_x_def global_y_def
        neighbour_thread_def)
  finally show ?thesis .
qed

lemma thread_pixel_loaded:
  assumes "tid \<in> set (dim3_range bd)" "neighbourhood_loaded width height bid bd tid"
  shows "thread_pixel setSobelKernels (load_phase d_input width height bid bd stale) bd tid 3 =
   Inr (word_of_int ((\<bar>convolve3 h_sobel_x (input_neighbour d_input width height bid bd tid)\<bar> +
                      \<bar>convolve3 h_sobel_y (input_neighbour d_input width height bid bd tid)\<bar>) mod 256))"
proof -
  have e: "convolve3 K (tile_neighbour (load_phase d_input width height bid bd stale) bd tid) =
           convolve3 K (input_neighbour d_input width height bid bd tid)" for K
    using assms by (intro convolve3_cong tile_neighbour_loaded) (auto simp: neighbourhood_loaded_iff)
  show ?thesis by (simp add: thread_pixel_3 e)
qed

lemma owner_in_grid:
  assumes "x < width" "y < height" "0 < dim_z gd"
    and "width \<le> dim_x gd * dim_x bd" "height \<le> dim_y gd * dim_y bd"
  shows "block_of bd x y \<in> set (dim3_range gd)"
proof -
  have "x < dim_x gd * dim_x bd" "y < dim_y gd * dim_y bd" using assms by auto
  then have "x div dim_x bd < dim_x gd" "y div dim_y bd < dim_y gd"
    by (auto intro: less_mult_imp_div_less)
  then show ?thesis using assms(3) by (simp add: in_dim3_range block_of_def)
qed

lemma owner_in_block:
  assumes "0 < dim_x bd" "0 < dim_y bd" "b < dim_z bd"
  shows "thread_of bd x y b \<in> set (dim3_range bd)"
  using assms by (simp add: in_dim3_range thread_of_def)

lemma owner_global:
  "global_x (block_of bd x y) bd (thread_of bd x y b) = x"
  "global_y (block_of bd x y) bd (thread_of bd x y b) = y"
  by (simp_all add: global_x_def global_y_def block_of_def thread_of_def)

lemma owner_index:
  "crtGlobalIndex width height (block_of bd x y) bd (thread_of bd x y b) =
   b * width * height + y * width + x"
  by (simp add: crtGlobalIndex_def owner_global) (simp add: thread_of_def)

lemma owner_unique:
  assumes "t \<in> set (dim3_range bd)" "valid_thread width height bid bd t"
    and "x < width" "y < height" "0 < dim_x bd" "0 < dim_y bd"
    and "crtGlobalIndex width height bid bd t = b * width * height + y * width + x"
  shows "t = thread_of bd x y b \<and> dim_x bid = x div dim_x bd \<and> dim_y bid = y div dim_y bd"
proof -
  have v: "valid_thread width height (block_of bd x y) bd (thread_of bd x y b)"
    using assms(3,4) by (simp add: valid_thread_def owner_global)
  from crtGlobalIndex_inj [OF assms(2) v] assms(7)
  have g: "dim_z t = b" "global_y bid bd t = y" "global_x bid bd t = x"
    by (simp_all add: owner_index owner_global) (simp add: thread_of_def)
  from assms(1) have r: "dim_x t < dim_x bd" "dim_y t < dim_y bd"
    by (auto simp: in_dim3_range)
  have mx: "x mod dim_x bd < dim_x bd" and my: "y mod dim_y bd < dim_y bd"
    using assms(5,6) by simp_all
  have "dim_x bid * dim_x bd + dim_x t = (x div dim_x bd) * dim_x bd + x mod dim_x bd"
    using g(3) by (simp add: global_x_def)
  from mixed_radix_inj [OF r(1) mx this] have X: "dim_x bid = x div dim_x bd" "dim_x t = x mod dim_x bd"
    by auto
  have "dim_y bid * dim_y bd + dim_y t = (y div dim_y bd) * dim_y bd + y mod dim_y bd"
    using g(2) by (simp add: global_y_def)
  from mixed_radix_inj [OF r(2) my this] have Y: "dim_y bid = y div dim_y bd" "dim_y t = y mod dim_y bd"
    by auto
  show ?thesis using X Y g(1) by (simp add: thread_of_def)
qed

lemma neighbourhood_loaded_block:
  "dim_x bid' = dim_x bid \<Longrightarrow> dim_y bid' = dim_y bid \<Longrightarrow>
   neighbourhood_loaded width height bid' bd tid = neighbourhood_loaded width height bid bd tid"
  by (simp add: neighbourhood_loaded_def)

lemma input_neighbour_block:
  "dim_x bid' = dim_x bid \<Longrightarrow> dim_y bid' = dim_y bid \<Longrightarrow>
   input_neighbour d_input width height bid' bd tid = input_neighbour d_input width height bid bd tid"
  by (simp add: input_neighbour_def fun_eq_iff)

text \<open>
  The output of a launch with kernel width 3 at a pixel whose neighbourhood is loaded.
\<close>

lemma applySobelFilters_pixel:
  assumes "x < width" "y < height" "b < dim_z bd" "0 < dim_x bd" "0 < dim_y bd"
    and "width \<le> dim_x gd * dim_x bd" "height \<le> dim_y gd * dim_y bd" "0 < dim_z gd"
    and "neighbourhood_loaded width height (block_of bd x y) bd (thread_of bd x y b)"
    and "applySobelFilters gd bd stale setSobelKernels d_input width height 3 out = Inr out'"
  shows "pixel_at out' width height b y x =
     word_of_int
       ((\<bar>convolve3 h_sobel_x (input_neighbour d_input width height (block_of bd x y) bd
             (thread_of bd x y b))\<bar> +
         \<bar>convolve3 h_sobel_y (input_neighbour d_input width height (block_of bd x y) bd
             (thread_of bd x y b))\<bar>) mod 256)"
    (is "_ = ?v")
proof -
  define k where "k = b * width * height + y * width + x"
  have run: "run_blocks bd stale setSobelKernels d_input width height 3 (dim3_range gd) out = Inr out'"
    using assms(10) by (simp add: applySobelFilters_def)
  have ob: "block_of bd x y \<in> set (dim3_range gd)"
    using assms(1,2,8,6,7) by (rule owner_in_grid)
  have ot: "thread_of bd x y b \<in> set (dim3_range bd)"
    using assms(4,5,3) by (rule owner_in_block)
  have ov: "valid_thread width height (block_of bd x y) bd (thread_of bd x y b)"
    using assms(1,2) by (simp add: valid_thread_def owner_global)
  have w: "\<exists>bid\<in>set (dim3_range gd). \<exists>t\<in>set (dim3_range bd).
      valid_thread width height bid bd t \<and> crtGlobalIndex width height bid bd t = k"
    using ob ot ov owner_index [of width height bd x y b] unfolding k_def by blast
  have a: "\<forall>bid\<in>set (dim3_range gd). \<forall>t\<in>set (dim3_range bd).
      valid_thread width height bid bd t \<longrightarrow> crtGlobalIndex width height bid bd t = k \<longrightarrow>
      thread_pixel setSobelKernels (load_phase d_input width height bid bd (stale bid)) bd t 3 = Inr ?v"
  proof (intro ballI impI)
    fix bid t
    assume t: "t \<in> set (dim3_range bd)" and v: "valid_thread width height bid bd t"
      and g: "crtGlobalIndex width height bid bd t = k"
    from owner_unique [OF t v assms(1,2,4,5) g [unfolded k_def]]
    have e: "t = thread_of bd x y b" "dim_x bid = dim_x (block_of bd x y)"
      "dim_y bid = dim_y (block_of bd x y)"
      by (simp_all add: block_of_def)
    have l: "neighbourhood_loaded width height bid bd t"
      using assms(9) neighbourhood_loaded_block [OF e(2,3), of width height bd t] e(1) by simp
    have n: "input_neighbour d_input width height bid bd t =
             input_neighbour d_input width height (block_of bd x y) bd (thread_of bd x y b)"
      using input_neighbour_block [OF e(2,3), of d_input width height bd t] e(1) by simp
    show "thread_pixel setSobelKernels (load_phase d_input width height bid bd (stale bid)) bd t 3 = Inr ?v"
      using thread_pixel_loaded [OF t l, of d_input "stale bid"] unfolding n .
  qed
  have "out' k = ?v"
    using run w a by (rule run_blocks_written)
  then show ?thesis by (simp add: pixel_at_def k_def)
qed

subsection \<open>The output of the gradient kernel\<close>







subsection \<open>Full tiles\<close>

lemma full_tile_axis:
  fixes x n w :: nat
  assumes "0 < n" "n dvd w" "x < w"
  shows "(x div n) * n + nat (nearest_in_tile (int (x mod n) + j) n) < w"
proof -
  obtain m where w: "w = n * m" using assms(2) by (auto simp: dvd_def)
  have "x div n < m" using assms(1,3) w by (simp add: less_mult_imp_div_less mult.commute)
  then have "(x div n + 1) * n \<le> m * n" by (intro mult_le_mono1) simp
  moreover have "nat (nearest_in_tile (int (x mod n) + j) n) < n"
    using assms(1) by (rule nat_nearest_in_tile_less)
  ultimately show ?thesis using w by (simp add: mult.commute)
qed

lemma full_tiles_loaded:
  assumes "0 < dim_x bd" "0 < dim_y bd" "dim_x bd dvd width" "dim_y bd dvd height"
    and "x < width" "y < height"
  shows "neighbourhood_loaded width height (block_of bd x y) bd (thread_of bd x y b)"
  using full_tile_axis [OF assms(1,3,5)] full_tile_axis [OF assms(2,4,6)]
  by (simp add: neighbourhood_loaded_def neighbour_thread_def block_of_def thread_of_def)

lemma convolve3_zero: "convolve3 K (\<lambda>i j. 0) = 0"
  by (simp add: convolve3_def)

text \<open>
  When the block divides the image in both directions every tile is full. Then the output
  inside the image does not depend on the stale shared memory, and an image that is 0
  gives an output that is 0.
\<close>

lemma full_tiles_independent_of_stale:
  assumes "0 < dim_x bd" "0 < dim_y bd" "dim_x bd dvd width" "dim_y bd dvd height"
    and "width \<le> dim_x gd * dim_x bd" "height \<le> dim_y gd * dim_y bd" "0 < dim_z gd"
    and "x < width" "y < height" "b < dim_z bd"
    and "applySobelFilters gd bd stale setSobelKernels d_input width height 3 out = Inr out1"
    and "applySobelFilters gd bd stale' setSobelKernels d_input width height 3 out = Inr out2"
  shows "pixel_at out1 width height b y x = pixel_at out2 width height b y x"
proof -
  have l: "neighbourhood_loaded width height (block_of bd x y) bd (thread_of bd x y b)"
    using assms(1-4,8,9) by (rule full_tiles_loaded)
  show ?thesis
    using applySobelFilters_pixel [OF assms(8,9,10,1,2,5,6,7) l assms(11)]
      applySobelFilters_pixel [OF assms(8,9,10,1,2,5,6,7) l assms(12)]
    by simp
qed

lemma full_tiles_zero_input:
  assumes "0 < dim_x bd" "0 < dim_y bd" "dim_x bd dvd width" "dim_y bd dvd height"
    and "width \<le> dim_x gd * dim_x bd" "height \<le> dim_y gd * dim_y bd" "0 < dim_z gd"
    and "x < width" "y < height" "b < dim_z bd"
    and "applySobelFilters gd bd stale setSobelKernels (filled 0) width height 3 out = Inr out'"
  shows "pixel_at out' width height b y x = 0"
proof -
  have l: "neighbourhood_loaded width height (block_of bd x y) bd (thread_of bd x y b)"
    using assms(1-4,8,9) by (rule full_tiles_loaded)
  have z: "input_neighbour (filled 0) width height bid bd tid = (\<lambda>i j. 0)" for bid tid
    by (simp add: input_neighbour_def pixel_at_def filled_def fun_eq_iff)
  show ?thesis
    using applySobelFilters_pixel [OF assms(8,9,10,1,2,5,6,7) l assms(11)]
    by (simp add: z convolve3_zero)
qed

subsection \<open>Tile elements that no thread writes\<close>

text \<open>
  Claim C3, evaluated on the 3 by 3 image of the known-vector scenario in the launch
  geometry of the host. The thread of pixel \<open>(2, 0)\<close> reads tile column 3, which no
  thread writes since the image is 3 pixels wide. Two runs on the same input, with shared
  memory left at 0 and left at 7, store 220 and 192 at that pixel.
\<close>

theorem stale_tile_changes_output:
  "read_back (sobel_stage (stale_filled 0) known_vector 3 3 1 (filled 0)) 2 = Inr 220 \<and>
   read_back (sobel_stage (stale_filled 7) known_vector 3 3 1 (filled 0)) 2 = Inr 192"
  by code_simp

text \<open>
  Claim C4, evaluated on a 1 by 1 image that is 0, with shared memory left at 255: the
  only pixel of the output is 250.
\<close>

theorem zero_input_nonzero_output:
  "read_back (sobel_stage (stale_filled 255) (filled 0) 1 1 1 (filled 0)) 0 = Inr 250"
  by code_simp

subsection \<open>An even kernel width\<close>








end
